theory Spec2Isabelle
  imports Complex_Main
begin

section \<open>Gradient boosting with neural base learners\<close>

text \<open>
  A shallow embedding of \<^verbatim>\<open>ensemble/gradientboostingclassifier.py\<close>. The tensor
  library is modelled as far as the class uses it: two-dimensional tensors as a column
  count and a list of rows, the exceptions of the library and of Python as values of
  \<open>error\<close>. The element type is a type variable with the syntactic classes the
  operations need (\<open>zero\<close>, \<open>one\<close>, \<open>plus\<close>, \<open>minus\<close>, \<open>times\<close>, \<open>inverse\<close>):
  no law of arithmetic is assumed by the definitions.
\<close>

subsection \<open>Errors and tensors\<close>

datatype error =
    KeyError string
  | IndexError
  | RuntimeError
  | ZeroDivisionError
  | ModuleError

datatype 'a tensor = Tensor (ncols: nat) (rows: "'a list list")

definition nrows :: "'a tensor \<Rightarrow> nat" where
  "nrows t = length (rows t)"

definition entry :: "'a tensor \<Rightarrow> nat \<Rightarrow> nat \<Rightarrow> 'a" where
  "entry t i j = rows t ! i ! j"

definition has_shape :: "nat \<Rightarrow> nat \<Rightarrow> 'a tensor \<Rightarrow> bool" where
  "has_shape B D t \<longleftrightarrow> ncols t = D \<and> length (rows t) = B \<and> list_all (\<lambda>r. length r = D) (rows t)"

text \<open>\<^verbatim>\<open>torch.zeros(B, D)\<close>: a negative dimension raises.\<close>

definition zeros :: "nat \<Rightarrow> int \<Rightarrow> error + ('a::zero) tensor" where
  "zeros B D = (if D < 0 then Inl RuntimeError
     else Inr (Tensor (nat D) (replicate B (replicate (nat D) 0))))"

definition zeros_like :: "'a tensor \<Rightarrow> ('a::zero) tensor" where
  "zeros_like t = Tensor (ncols t) (map (\<lambda>r. replicate (length r) 0) (rows t))"

text \<open>\<^verbatim>\<open>s * t\<close> for a Python scalar \<open>s\<close>.\<close>

definition smul :: "'a \<Rightarrow> 'a tensor \<Rightarrow> ('a::times) tensor" where
  "smul s t = Tensor (ncols t) (map (map (\<lambda>x. s * x)) (rows t))"

text \<open>
  \<^verbatim>\<open>a += b\<close>: the right operand is broadcast to the shape of \<open>a\<close> (a dimension of
  size one is repeated); any other mismatch raises.
\<close>

definition bcast :: "nat \<Rightarrow> 'b list \<Rightarrow> 'b list" where
  "bcast n xs = (if length xs = n then xs else replicate n (hd xs))"

definition iadd :: "'a tensor \<Rightarrow> 'a tensor \<Rightarrow> error + ('a::plus) tensor" where
  "iadd a b =
     (if (ncols b = ncols a \<or> ncols b = 1) \<and> (length (rows b) = length (rows a) \<or> length (rows b) = 1)
      then Inr (Tensor (ncols a)
             (map2 (\<lambda>ra rb. map2 (+) ra (bcast (ncols a) rb)) (rows a) (bcast (length (rows a)) (rows b))))
      else Inl RuntimeError)"

text \<open>
  \<^verbatim>\<open>a - b\<close> and \<^verbatim>\<open>F.softmax(t, dim=1)\<close>. The class subtracts only tensors of
  one shape (the one-hot labels and the softmax of a tensor created by
  \<^verbatim>\<open>zeros_like\<close> of them and updated in place), so broadcasting never applies
  to \<open>tsub\<close>. The softmax of a row is \<open>exp x\<^sub>j / \<Sum> exp x\<^sub>i\<close>, with the
  exponential a parameter.
\<close>

definition tsub :: "'a tensor \<Rightarrow> 'a tensor \<Rightarrow> ('a::minus) tensor" where
  "tsub a b = Tensor (ncols a) (map2 (map2 (-)) (rows a) (rows b))"

definition softmax_row :: "('a \<Rightarrow> 'a) \<Rightarrow> 'a list \<Rightarrow> ('a::{zero,plus,inverse}) list" where
  "softmax_row ex r = map (\<lambda>x. ex x / foldl (+) 0 (map ex r)) r"

definition softmax :: "('a \<Rightarrow> 'a) \<Rightarrow> 'a tensor \<Rightarrow> ('a::{zero,plus,inverse}) tensor" where
  "softmax ex t = Tensor (ncols t) (map (softmax_row ex) (rows t))"

text \<open>
  \<^verbatim>\<open>t.scatter_(1, index.view(-1, 1), v)\<close>: row \<open>i\<close> gets \<open>v\<close> at column
  \<open>index[i]\<close>; an index outside the row raises.
\<close>

fun scatter_rows :: "'a list list \<Rightarrow> int list \<Rightarrow> 'a \<Rightarrow> error + 'a list list" where
  "scatter_rows (r # rs) (j # js) v =
     (if 0 \<le> j \<and> j < int (length r)
      then (case scatter_rows rs js v of Inl e \<Rightarrow> Inl e | Inr rs' \<Rightarrow> Inr (r[nat j := v] # rs'))
      else Inl RuntimeError)"
| "scatter_rows rs js v = Inr rs"

subsection \<open>The ensemble\<close>

text \<open>
  The dictionary \<^verbatim>\<open>args\<close>: each recognised key is absent (\<open>None\<close>) or bound to a
  value of its documented type.
\<close>

record 'a args =
  arg_epochs :: "int option"
  arg_output_dim :: "int option"
  arg_log_interval :: "int option"
  arg_n_estimators :: "int option"
  arg_shrinkage_rate :: "'a option"
  arg_cuda :: "bool option"
  arg_lr :: "'a option"
  arg_weight_decay :: "'a option"

datatype device = Cuda | Cpu

text \<open>
  A base learner is a module object: \<open>ident\<close> stands for its identity, \<open>params\<close> for
  the tensors \<^verbatim>\<open>learner.parameters()\<close> hands to the optimizer, \<open>buffers\<close> for the
  rest of its state (what a call of the module may write, such as running statistics),
  \<open>grad\<close> for the gradient buffers of the parameters (\<open>None\<close> until a backward pass
  reaches them). Each learner owns its state: the factory is a constructor, building a
  new module at every call.
\<close>

record ('p, 'b, 'g) learner =
  ident :: nat
  params :: 'p
  buffers :: 'b
  grad :: "'g option"

record ('a, 'p, 'b, 'g) ensemble =
  args :: "'a args"
  epochs :: int
  output_dim :: int
  log_interval :: int
  n_estimators :: int
  shrinkage_rate :: 'a
  device :: device
  learners :: "('p, 'b, 'g) learner list"
  training :: bool

subsection \<open>One-hot coding\<close>

definition onehot_coding :: "('a, 'p, 'b, 'g) ensemble \<Rightarrow> int list \<Rightarrow> error + ('a::{zero,one}) tensor" where
  "onehot_coding ens y =
     (case zeros (length y) (output_dim ens) of
        Inl e \<Rightarrow> Inl e
      | Inr y_onehot \<Rightarrow>
          (case scatter_rows (rows y_onehot) y 1 of
             Inl e \<Rightarrow> Inl e
           | Inr rs \<Rightarrow> Inr (Tensor (ncols y_onehot) rs)))"

subsection \<open>Construction\<close>

text \<open>
  The learner factory is a callable of the caller's: it takes the learner configuration
  and may raise; it draws the initial state of the module from the interpreter's state
  \<open>'s\<close> (the random generator), which it returns updated. \<^verbatim>\<open>.to(self.device)\<close>
  returns the module it is applied to.
\<close>

type_synonym ('p, 'b, 's) factory = "(string \<rightharpoonup> int) \<Rightarrow> 's \<Rightarrow> error + (('p \<times> 'b) \<times> 's)"

fun init_loop :: "('p, 'b, 's) factory \<Rightarrow> (string \<rightharpoonup> int) \<Rightarrow> nat \<Rightarrow> ('p, 'b, 'g) learner list \<Rightarrow> 's
    \<Rightarrow> error + (('p, 'b, 'g) learner list \<times> 's)" where
  "init_loop learner learner_args 0 ls s = Inr (ls, s)"
| "init_loop learner learner_args (Suc n) ls s =
     (case learner learner_args s of
        Inl e \<Rightarrow> Inl e
      | Inr (pb, s') \<Rightarrow>
          init_loop learner learner_args n
            (ls @ [\<lparr>ident = length ls, params = fst pb, buffers = snd pb, grad = None\<rparr>]) s')"

definition init :: "'a args \<Rightarrow> ('p, 'b, 's) factory \<Rightarrow> (string \<rightharpoonup> int) \<Rightarrow> 's
    \<Rightarrow> error + (('a, 'p, 'b, 'g) ensemble \<times> 's)" where
  "init a learner learner_args s =
     (case arg_epochs a of None \<Rightarrow> Inl (KeyError ''epochs'') | Some ep \<Rightarrow>
     (case arg_output_dim a of None \<Rightarrow> Inl (KeyError ''output_dim'') | Some od \<Rightarrow>
     (case arg_log_interval a of None \<Rightarrow> Inl (KeyError ''log_interval'') | Some li \<Rightarrow>
     (case arg_n_estimators a of None \<Rightarrow> Inl (KeyError ''n_estimators'') | Some n \<Rightarrow>
     (case arg_shrinkage_rate a of None \<Rightarrow> Inl (KeyError ''shrinkage_rate'') | Some sr \<Rightarrow>
     (case arg_cuda a of None \<Rightarrow> Inl (KeyError ''cuda'') | Some cu \<Rightarrow>
     (case init_loop learner (learner_args(''output_dim'' \<mapsto> od)) (nat n) [] s of
        Inl e \<Rightarrow> Inl e
      | Inr (ls, s') \<Rightarrow>
          Inr (\<lparr>args = a, epochs = ep, output_dim = od, log_interval = li, n_estimators = n,
                shrinkage_rate = sr, device = (if cu then Cuda else Cpu), learners = ls,
                training = True\<rparr>, s'))))))))"

subsection \<open>Calling a learner; gradient tracking\<close>

text \<open>
  A tensor carries the set of learners (by index in \<^verbatim>\<open>self.learners\<close>) whose
  parameters its autograd graph reaches: a backward pass from it deposits a gradient in
  each of them. A module called while gradient tracking is enabled returns a tensor
  attached to its parameters; under \<^verbatim>\<open>torch.no_grad()\<close> every result is detached.

  The forward function of the learner class is a parameter. A call reads the module's
  parameters and buffers, the modes (training flag, gradient tracking) and the batch; it
  may raise, and it returns the output together with the buffers as the call leaves
  them. So the call of a learner is an effect on the ensemble: the learner is replaced
  by the learner the call leaves.
\<close>

datatype 'a var = Var (data: "'a tensor") (graph: "nat set")

record modes =
  train_mode :: bool
  grad_mode :: bool

type_synonym ('p, 'b, 'x, 'a) module = "'p \<Rightarrow> 'b \<Rightarrow> modes \<Rightarrow> 'x list \<Rightarrow> error + ('a tensor \<times> 'b)"

definition call_learner :: "('p, 'b, 'x, 'a) module \<Rightarrow> modes \<Rightarrow> nat \<Rightarrow> ('p, 'b, 'g) learner \<Rightarrow> 'x list
    \<Rightarrow> error + ('a var \<times> ('p, 'b, 'g) learner)" where
  "call_learner fwd m idx l X =
     (case fwd (params l) (buffers l) m X of
        Inl e \<Rightarrow> Inl e
      | Inr (t, b') \<Rightarrow> Inr (Var t (if grad_mode m then {idx} else {}), l\<lparr>buffers := b'\<rparr>))"

text \<open>\<^verbatim>\<open>acc += s * out\<close>.\<close>

definition add_scaled :: "modes \<Rightarrow> 'a \<Rightarrow> 'a var \<Rightarrow> 'a var \<Rightarrow> error + ('a::{plus,times}) var" where
  "add_scaled m s acc out =
     (case iadd (data acc) (smul s (data out)) of
        Inl e \<Rightarrow> Inl e
      | Inr t \<Rightarrow> Inr (Var t (if grad_mode m then graph acc \<union> graph out else {})))"

subsection \<open>Prediction\<close>

text \<open>
  The loop of \<open>forward\<close> over \<^verbatim>\<open>self.learners\<close>: it returns the accumulated
  prediction and the learners as their calls leave them, in the order of the list.
\<close>

fun forward_loop :: "('p, 'b, 'x, 'a) module \<Rightarrow> modes \<Rightarrow> 'a \<Rightarrow> 'x list \<Rightarrow> 'a var \<Rightarrow> nat
    \<Rightarrow> ('p, 'b, 'g) learner list \<Rightarrow> error + (('a::{plus,times}) var \<times> ('p, 'b, 'g) learner list)" where
  "forward_loop fwd m s X y_pred idx [] = Inr (y_pred, [])"
| "forward_loop fwd m s X y_pred idx (l # ls) =
     (case call_learner fwd m idx l X of
        Inl e \<Rightarrow> Inl e
      | Inr (out, l') \<Rightarrow>
          (case add_scaled m s y_pred out of
             Inl e \<Rightarrow> Inl e
           | Inr y_pred' \<Rightarrow>
               (case forward_loop fwd m s X y_pred' (Suc idx) ls of
                  Inl e \<Rightarrow> Inl e
                | Inr (r, ls') \<Rightarrow> Inr (r, l' # ls'))))"

text \<open>
  \<open>forward\<close> returns the prediction and the ensemble it leaves. The method itself
  assigns to no attribute of \<^verbatim>\<open>self\<close>; what changes is what the calls of the
  learners change. \<open>gm\<close> is the ambient gradient mode.
\<close>

definition forward :: "('p, 'b, 'x, 'a) module \<Rightarrow> bool \<Rightarrow> ('a, 'p, 'b, 'g) ensemble \<Rightarrow> 'x list
    \<Rightarrow> error + (('a::{zero,plus,times}) var \<times> ('a, 'p, 'b, 'g) ensemble)" where
  "forward fwd gm ens X =
     (case zeros (length X) (output_dim ens) of
        Inl e \<Rightarrow> Inl e
      | Inr y_pred \<Rightarrow>
          (case forward_loop fwd \<lparr>train_mode = training ens, grad_mode = gm\<rparr> (shrinkage_rate ens) X
                  (Var y_pred {}) 0 (learners ens) of
             Inl e \<Rightarrow> Inl e
           | Inr (r, ls') \<Rightarrow> Inr (r, ens\<lparr>learners := ls'\<rparr>)))"

subsection \<open>Pseudo-residuals\<close>

text \<open>
  The loop of \<open>_pseudo_residual\<close> over \<^verbatim>\<open>range(learner_idx)\<close>, reading
  \<^verbatim>\<open>self.learners[idx]\<close>: an index past the end of the list raises.
\<close>

fun residual_loop :: "('p, 'b, 'x, 'a) module \<Rightarrow> modes \<Rightarrow> 'a \<Rightarrow> 'x list
    \<Rightarrow> 'a var \<Rightarrow> ('p, 'b, 'g) learner list \<Rightarrow> nat list
    \<Rightarrow> error + (('a::{plus,times}) var \<times> ('p, 'b, 'g) learner list)" where
  "residual_loop fwd m s X output ls [] = Inr (output, ls)"
| "residual_loop fwd m s X output ls (idx # idxs) =
     (if idx < length ls
      then (case call_learner fwd m idx (ls ! idx) X of
              Inl e \<Rightarrow> Inl e
            | Inr (out, l') \<Rightarrow>
                (case add_scaled m s output out of
                   Inl e \<Rightarrow> Inl e
                 | Inr output' \<Rightarrow> residual_loop fwd m s X output' (ls[idx := l']) idxs))
      else Inl IndexError)"

definition residual_of :: "('a \<Rightarrow> 'a) \<Rightarrow> modes \<Rightarrow> 'a tensor \<Rightarrow> 'a var
    \<Rightarrow> ('a::{zero,plus,minus,inverse}) var" where
  "residual_of ex m y_onehot output =
     Var (tsub y_onehot (softmax ex (data output))) (if grad_mode m then graph output else {})"

definition pseudo_residual :: "('p, 'b, 'x, 'a) module \<Rightarrow> ('a \<Rightarrow> 'a) \<Rightarrow> bool \<Rightarrow> ('a, 'p, 'b, 'g) ensemble
    \<Rightarrow> 'x list \<Rightarrow> int list \<Rightarrow> int
    \<Rightarrow> error + (('a::{zero,one,plus,minus,times,inverse}) var \<times> ('a, 'p, 'b, 'g) ensemble)" where
  "pseudo_residual fwd ex gm ens X y learner_idx =
     (let m = \<lparr>train_mode = training ens, grad_mode = gm\<rparr> in
      case onehot_coding ens y of
        Inl e \<Rightarrow> Inl e
      | Inr y_onehot \<Rightarrow>
          (let output = Var (zeros_like y_onehot) {} in
           if learner_idx = 0 then Inr (residual_of ex m y_onehot output, ens)
           else (case residual_loop fwd m (shrinkage_rate ens) X output (learners ens)
                        [0..<nat learner_idx] of
                   Inl e \<Rightarrow> Inl e
                 | Inr (output', ls') \<Rightarrow>
                     Inr (residual_of ex m y_onehot output', ens\<lparr>learners := ls'\<rparr>))))"

subsection \<open>Training\<close>

text \<open>
  What \<^verbatim>\<open>fit\<close> takes from the library: the criterion (\<^verbatim>\<open>MSELoss\<close> with sum
  reduction, which may raise on shapes), the gradient autograd computes for the
  parameters of a learner in the graph of the loss, how a gradient is accumulated into a
  buffer, what \<^verbatim>\<open>zero_grad\<close> leaves in a buffer, and Adam (its fresh state for a
  parameter set, and one step).
\<close>

record ('a, 'p, 'b, 'x, 'g, 'o) trainer =
  mse_loss :: "'a tensor \<Rightarrow> 'a tensor \<Rightarrow> error + 'a"
  autograd :: "('a, 'p, 'b, 'g) ensemble \<Rightarrow> 'x list \<Rightarrow> int list \<Rightarrow> nat \<Rightarrow> nat \<Rightarrow> 'g"
  accumulate :: "'g option \<Rightarrow> 'g \<Rightarrow> 'g"
  zero_grad :: "'g option \<Rightarrow> 'g option"
  adam :: "'a \<Rightarrow> 'a \<Rightarrow> 'p \<Rightarrow> 'o"
  adam_step :: "'o \<Rightarrow> 'p \<Rightarrow> 'g option \<Rightarrow> 'o \<times> 'p"

datatype 'a line = Status int int int 'a | Accuracy real

text \<open>
  \<^verbatim>\<open>loss.backward()\<close>: every learner in the graph of the loss gets the gradient of
  its parameters accumulated into its buffer.
\<close>

definition backward :: "('a, 'p, 'b, 'x, 'g, 'o) trainer \<Rightarrow> ('a, 'p, 'b, 'g) ensemble \<Rightarrow> 'x list \<Rightarrow> int list
    \<Rightarrow> nat \<Rightarrow> nat set \<Rightarrow> ('p, 'b, 'g) learner list \<Rightarrow> ('p, 'b, 'g) learner list" where
  "backward T ens X y k G ls =
     map (\<lambda>(j, l). if j \<in> G then l\<lparr>grad := Some (accumulate T (grad l) (autograd T ens X y k j))\<rparr> else l)
       (enumerate 0 ls)"

text \<open>
  One pass of the innermost loop body for learner \<open>k\<close> (an index of
  \<^verbatim>\<open>enumerate(self.learners)\<close>): residual, output, loss, \<^verbatim>\<open>zero_grad\<close>,
  \<^verbatim>\<open>backward\<close>, \<^verbatim>\<open>step\<close>. A loss that is attached to no parameter cannot be
  backpropagated. The gradients are those of the forward passes made from \<open>ens\<close>.
\<close>

definition train_step :: "('a, 'p, 'b, 'x, 'g, 'o) trainer \<Rightarrow> ('p, 'b, 'x, 'a) module \<Rightarrow> ('a \<Rightarrow> 'a) \<Rightarrow> bool
    \<Rightarrow> ('a, 'p, 'b, 'g) ensemble \<Rightarrow> nat \<Rightarrow> 'o \<Rightarrow> 'x list \<Rightarrow> int list
    \<Rightarrow> error + (('a::{zero,one,plus,minus,times,inverse}, 'p, 'b, 'g) ensemble \<times> 'o \<times> 'a)" where
  "train_step T fwd ex gm ens k opt X y =
     (case pseudo_residual fwd ex gm ens X y (int k) of Inl e \<Rightarrow> Inl e | Inr (y_residual, ens1) \<Rightarrow>
     (case call_learner fwd \<lparr>train_mode = training ens1, grad_mode = gm\<rparr> k (learners ens1 ! k) X of
        Inl e \<Rightarrow> Inl e | Inr (output, l') \<Rightarrow>
     (case mse_loss T (data output) (data y_residual) of Inl e \<Rightarrow> Inl e | Inr loss \<Rightarrow>
        (let loss_graph = (if gm then graph output \<union> graph y_residual else {});
             ls1 = (learners ens1)[k := l'\<lparr>grad := zero_grad T (grad l')\<rparr>]
         in if loss_graph = {} then Inl RuntimeError
            else (let ls2 = backward T ens X y k loss_graph ls1;
                      (opt', p') = adam_step T opt (params (ls2 ! k)) (grad (ls2 ! k))
                  in Inr (ens1\<lparr>learners := ls2[k := (ls2 ! k)\<lparr>params := p'\<rparr>]\<rparr>, opt', loss))))))"

fun fit_batches :: "('a, 'p, 'b, 'x, 'g, 'o) trainer \<Rightarrow> ('p, 'b, 'x, 'a) module \<Rightarrow> ('a \<Rightarrow> 'a) \<Rightarrow> bool
    \<Rightarrow> nat \<Rightarrow> nat \<Rightarrow> nat \<Rightarrow> ('x list \<times> int list) list
    \<Rightarrow> ('a, 'p, 'b, 'g) ensemble \<times> 'o \<times> 'a line list
    \<Rightarrow> error + (('a::{zero,one,plus,minus,times,inverse}, 'p, 'b, 'g) ensemble \<times> 'o \<times> 'a line list)" where
  "fit_batches T fwd ex gm k epoch batch_idx [] st = Inr st"
| "fit_batches T fwd ex gm k epoch batch_idx ((X, y) # bs) (ens, opt, out) =
     (case train_step T fwd ex gm ens k opt X y of
        Inl e \<Rightarrow> Inl e
      | Inr (ens', opt', loss) \<Rightarrow>
          if log_interval ens' = 0 then Inl ZeroDivisionError
          else fit_batches T fwd ex gm k epoch (Suc batch_idx) bs
                 (ens', opt',
                  if int batch_idx mod log_interval ens' = 0
                  then out @ [Status (int k + 1) (int epoch + 1) (int batch_idx + 1) loss]
                  else out))"

fun fit_epochs :: "('a, 'p, 'b, 'x, 'g, 'o) trainer \<Rightarrow> ('p, 'b, 'x, 'a) module \<Rightarrow> ('a \<Rightarrow> 'a) \<Rightarrow> bool
    \<Rightarrow> nat \<Rightarrow> ('x list \<times> int list) list \<Rightarrow> nat list
    \<Rightarrow> ('a, 'p, 'b, 'g) ensemble \<times> 'o \<times> 'a line list
    \<Rightarrow> error + (('a::{zero,one,plus,minus,times,inverse}, 'p, 'b, 'g) ensemble \<times> 'o \<times> 'a line list)" where
  "fit_epochs T fwd ex gm k train_loader [] st = Inr st"
| "fit_epochs T fwd ex gm k train_loader (epoch # es) st =
     (case fit_batches T fwd ex gm k epoch 0 train_loader st of
        Inl e \<Rightarrow> Inl e
      | Inr st' \<Rightarrow> fit_epochs T fwd ex gm k train_loader es st')"

text \<open>The body of the outer loop: a new optimizer for learner \<open>k\<close>, then its epochs.\<close>

definition fit_learner :: "('a, 'p, 'b, 'x, 'g, 'o) trainer \<Rightarrow> ('p, 'b, 'x, 'a) module \<Rightarrow> ('a \<Rightarrow> 'a) \<Rightarrow> bool
    \<Rightarrow> ('x list \<times> int list) list \<Rightarrow> nat \<Rightarrow> ('a, 'p, 'b, 'g) ensemble \<times> 'a line list
    \<Rightarrow> error + (('a::{zero,one,plus,minus,times,inverse}, 'p, 'b, 'g) ensemble \<times> 'a line list)" where
  "fit_learner T fwd ex gm train_loader k st =
     (case st of (ens, out) \<Rightarrow>
     (case arg_lr (args ens) of None \<Rightarrow> Inl (KeyError ''lr'') | Some lr \<Rightarrow>
     (case arg_weight_decay (args ens) of None \<Rightarrow> Inl (KeyError ''weight_decay'') | Some wd \<Rightarrow>
     (case fit_epochs T fwd ex gm k train_loader [0..<nat (epochs ens)]
             (ens, adam T lr wd (params (learners ens ! k)), out) of
        Inl e \<Rightarrow> Inl e
      | Inr (ens', opt', out') \<Rightarrow> Inr (ens', out')))))"

fun fit_learners :: "('a, 'p, 'b, 'x, 'g, 'o) trainer \<Rightarrow> ('p, 'b, 'x, 'a) module \<Rightarrow> ('a \<Rightarrow> 'a) \<Rightarrow> bool
    \<Rightarrow> ('x list \<times> int list) list \<Rightarrow> nat list \<Rightarrow> ('a, 'p, 'b, 'g) ensemble \<times> 'a line list
    \<Rightarrow> error + (('a::{zero,one,plus,minus,times,inverse}, 'p, 'b, 'g) ensemble \<times> 'a line list)" where
  "fit_learners T fwd ex gm train_loader [] st = Inr st"
| "fit_learners T fwd ex gm train_loader (k # ks) st =
     (case fit_learner T fwd ex gm train_loader k st of
        Inl e \<Rightarrow> Inl e
      | Inr st' \<Rightarrow> fit_learners T fwd ex gm train_loader ks st')"

text \<open>
  \<open>fit\<close> returns the ensemble it leaves and the lines it printed. The loader yields the
  same finite sequence of batches at every pass.
\<close>

definition fit :: "('a, 'p, 'b, 'x, 'g, 'o) trainer \<Rightarrow> ('p, 'b, 'x, 'a) module \<Rightarrow> ('a \<Rightarrow> 'a) \<Rightarrow> bool
    \<Rightarrow> ('a, 'p, 'b, 'g) ensemble \<Rightarrow> ('x list \<times> int list) list
    \<Rightarrow> error + (('a::{zero,one,plus,minus,times,inverse}, 'p, 'b, 'g) ensemble \<times> 'a line list)" where
  "fit T fwd ex gm ens train_loader =
     fit_learners T fwd ex gm train_loader [0..<length (learners ens)] (ens\<lparr>training := True\<rparr>, [])"

subsection \<open>Evaluation\<close>

text \<open>
  Modelled from the spec: \<^verbatim>\<open>predict\<close> is a method of \<^verbatim>\<open>BaseModule\<close>, whose file
  is not part of the sources; the specification names prediction
  \<^verbatim>\<open>forward/predict\<close> and gives one contract for both.
\<close>

definition predict :: "('p, 'b, 'x, 'a) module \<Rightarrow> bool \<Rightarrow> ('a, 'p, 'b, 'g) ensemble \<Rightarrow> 'x list
    \<Rightarrow> error + (('a::{zero,plus,times}) var \<times> ('a, 'p, 'b, 'g) ensemble)" where
  "predict fwd gm ens X = forward fwd gm ens X"

text \<open>
  \<^verbatim>\<open>output.data.max(1)[1]\<close>: per row, the index of the first maximal entry; a
  reduction over a dimension of size zero raises.
\<close>

fun argmax_from :: "'a \<Rightarrow> nat \<Rightarrow> nat \<Rightarrow> ('a::linorder) list \<Rightarrow> nat" where
  "argmax_from best pos i [] = pos"
| "argmax_from best pos i (x # xs) =
     (if best < x then argmax_from x i (Suc i) xs else argmax_from best pos (Suc i) xs)"

definition argmax_row :: "('a::linorder) list \<Rightarrow> nat" where
  "argmax_row r = (case r of [] \<Rightarrow> 0 | x # xs \<Rightarrow> argmax_from x 0 1 xs)"

definition max_dim1 :: "('a::linorder) tensor \<Rightarrow> error + nat list" where
  "max_dim1 t = (if ncols t = 0 then Inl RuntimeError else Inr (map argmax_row (rows t)))"

text \<open>
  \<^verbatim>\<open>y_pred.eq(y).sum()\<close> on one-dimensional tensors: the operands are broadcast
  against each other (a tensor of one element is repeated), any other mismatch raises.
\<close>

definition eq_count :: "nat list \<Rightarrow> int list \<Rightarrow> error + nat" where
  "eq_count y_pred y =
     (if length y_pred = length y \<or> length y = 1 \<or> length y_pred = 1
      then (let n = (if length y_pred = 1 then length y else length y_pred)
            in Inr (length (filter (\<lambda>(p, l). int p = l) (zip (bcast n y_pred) (bcast n y)))))
      else Inl RuntimeError)"

record 'x loader =
  batches :: "('x list \<times> int list) list"
  dataset_len :: nat

fun evaluate_loop :: "('p, 'b, 'x, 'a) module \<Rightarrow> ('a::{zero,plus,times,linorder}, 'p, 'b, 'g) ensemble
    \<Rightarrow> ('x list \<times> int list) list \<Rightarrow> nat \<Rightarrow> error + (nat \<times> ('a, 'p, 'b, 'g) ensemble)" where
  "evaluate_loop fwd ens [] correct = Inr (correct, ens)"
| "evaluate_loop fwd ens ((X, y) # bs) correct =
     (case predict fwd False ens X of Inl e \<Rightarrow> Inl e | Inr (output, ens') \<Rightarrow>
     (case max_dim1 (data output) of Inl e \<Rightarrow> Inl e | Inr y_pred \<Rightarrow>
     (case eq_count y_pred y of Inl e \<Rightarrow> Inl e | Inr c \<Rightarrow>
        evaluate_loop fwd ens' bs (correct + c))))"

text \<open>
  \<open>evaluate\<close> returns \<^verbatim>\<open>None\<close>: its result here is what it leaves behind, the
  ensemble (in evaluation mode) and the line printed. The accuracy is a quotient of
  Python floats, taken here as a real number; a dataset of length zero makes the division
  raise.
\<close>

definition evaluate :: "('p, 'b, 'x, 'a) module \<Rightarrow> ('a, 'p, 'b, 'g) ensemble \<Rightarrow> 'x loader
    \<Rightarrow> error + (('a::{zero,plus,times,linorder}, 'p, 'b, 'g) ensemble \<times> 'a line list)" where
  "evaluate fwd ens test_loader =
     (case evaluate_loop fwd (ens\<lparr>training := False\<rparr>) (batches test_loader) 0 of
        Inl e \<Rightarrow> Inl e
      | Inr (correct, ens') \<Rightarrow>
          if dataset_len test_loader = 0 then Inl ZeroDivisionError
          else Inr (ens', [Accuracy (100 * real correct / real (dataset_len test_loader))]))"

subsection \<open>Auxiliary notions\<close>

text \<open>
  A factory instrumented to record, in order, the configurations it is called with; it
  builds what the factory builds.
\<close>

definition logged :: "('p, 'b, 's) factory \<Rightarrow> ('p, 'b, (string \<rightharpoonup> int) list \<times> 's) factory" where
  "logged learner cfg st =
     (case learner cfg (snd st) of
        Inl e \<Rightarrow> Inl e
      | Inr (pb, s') \<Rightarrow> Inr (pb, (fst st @ [cfg], s')))"

text \<open>
  The frame of a training phase: between two states of the ensemble, nothing but the
  state of the learners differs, the sequence of module objects is the same, and the
  parameters differ at index \<open>k\<close> at most.
\<close>

definition only_learner_changed :: "nat \<Rightarrow> ('a, 'p, 'b, 'g) ensemble \<Rightarrow> ('a, 'p, 'b, 'g) ensemble \<Rightarrow> bool" where
  "only_learner_changed k ens ens' \<longleftrightarrow>
     ens' = ens\<lparr>learners := learners ens'\<rparr> \<and>
     map ident (learners ens') = map ident (learners ens) \<and>
     (\<forall>j < length (learners ens). j \<noteq> k \<longrightarrow> params (learners ens' ! j) = params (learners ens ! j))"

text \<open>
  The frame of the learners' calls: between two states of the ensemble, nothing but the
  buffers of the learners differs.
\<close>

definition only_buffers_changed :: "('a, 'p, 'b, 'g) ensemble \<Rightarrow> ('a, 'p, 'b, 'g) ensemble \<Rightarrow> bool" where
  "only_buffers_changed ens ens' \<longleftrightarrow>
     ens' = ens\<lparr>learners := learners ens'\<rparr> \<and>
     map ident (learners ens') = map ident (learners ens) \<and>
     map params (learners ens') = map params (learners ens) \<and>
     map grad (learners ens') = map grad (learners ens)"

text \<open>The learner a call leaves: the same module with the buffers the call returned.\<close>

definition called :: "('p, 'b, 'g) learner \<Rightarrow> 'a tensor \<times> 'b \<Rightarrow> ('p, 'b, 'g) learner" where
  "called l r = l\<lparr>buffers := snd r\<rparr>"



subsection \<open>A concrete scenario\<close>

text \<open>
  The end-to-end scenario of the specification: three learners, shrinkage rate \<open>0.1\<close>,
  four classes, one epoch. The learner is a one-weight module: on an example \<open>x\<close> (a
  hint at its class) it scores class \<open>x\<close> with its weight and every other class with
  zero; as a batch normalisation layer does, it counts in a buffer the batches it has
  seen in training mode. The optimizer and the gradients are the simplest that fit the
  types.
\<close>

definition scenario_args :: "real args" where
  "scenario_args = \<lparr>arg_epochs = Some 1, arg_output_dim = Some 4, arg_log_interval = Some 1,
     arg_n_estimators = Some 3, arg_shrinkage_rate = Some (1 / 10), arg_cuda = Some False,
     arg_lr = Some (1 / 1000), arg_weight_decay = Some 0\<rparr>"

definition toy_factory :: "(nat \<times> real, nat, nat) factory" where
  "toy_factory cfg s =
     (case cfg ''output_dim'' of
        None \<Rightarrow> Inl (KeyError ''output_dim'')
      | Some d \<Rightarrow> Inr (((nat d, 1 + real s), 0), Suc s))"

definition toy_module :: "(nat \<times> real, nat, nat, real) module" where
  "toy_module p b m X =
     Inr (Tensor (fst p) (map (\<lambda>x. map (\<lambda>j. if j = x then snd p else 0) [0..<fst p]) X),
          if train_mode m then Suc b else b)"

definition toy_trainer :: "(real, nat \<times> real, nat, nat, real, nat) trainer" where
  "toy_trainer = \<lparr>mse_loss = (\<lambda>a b. Inr 0), autograd = (\<lambda>ens X y k j. 1),
     accumulate = (\<lambda>g d. case g of None \<Rightarrow> d | Some c \<Rightarrow> c + d),
     zero_grad = map_option (\<lambda>c. 0), adam = (\<lambda>lr wd p. 0),
     adam_step = (\<lambda>n p g. (Suc n, (fst p, snd p - (case g of None \<Rightarrow> 0 | Some c \<Rightarrow> c / 1000))))\<rparr>"

definition scenario_ens :: "(real, nat \<times> real, nat, real) ensemble" where
  "scenario_ens = \<lparr>args = scenario_args, epochs = 1, output_dim = 4, log_interval = 1,
     n_estimators = 3, shrinkage_rate = 1 / 10, device = Cpu,
     learners = [\<lparr>ident = 0, params = (4, 1), buffers = 0, grad = None\<rparr>,
                 \<lparr>ident = 1, params = (4, 2), buffers = 0, grad = None\<rparr>,
                 \<lparr>ident = 2, params = (4, 3), buffers = 0, grad = None\<rparr>],
     training = True\<rparr>"

section \<open>Properties\<close>

subsection \<open>One-hot coding\<close>

lemma scatter_rows_replicate:
  "\<forall>j \<in> set y. 0 \<le> j \<and> j < int D \<Longrightarrow>
   scatter_rows (replicate (length y) (replicate D z)) y v
     = Inr (map (\<lambda>j. (replicate D z)[nat j := v]) y)"
  by (induction y) auto

lemma sum_list_replicate_zero: "sum_list (replicate D (0::'a::monoid_add)) = 0"
  by (induction D) simp_all

lemma sum_list_replicate_update:
  "j < D \<Longrightarrow> sum_list ((replicate D (0::'a::monoid_add))[j := v]) = v"
proof (induction D arbitrary: j)
  case 0
  then show ?case by simp
next
  case (Suc D)
  then show ?case by (cases j) (simp_all add: sum_list_replicate_zero)
qed

lemma onehot_coding_eq:
  assumes "0 \<le> output_dim ens" and "\<forall>l \<in> set y. 0 \<le> l \<and> l < output_dim ens"
  shows "onehot_coding ens y
    = Inr (Tensor (nat (output_dim ens)) (map (\<lambda>l. (replicate (nat (output_dim ens)) 0)[nat l := 1]) y))"
proof -
  have "\<forall>l \<in> set y. 0 \<le> l \<and> l < int (nat (output_dim ens))"
    using assms by simp
  then show ?thesis
    using assms(1) by (simp add: onehot_coding_def zeros_def scatter_rows_replicate)
qed

text \<open>
  C5. For labels in \<open>[0, output_dim)\<close>, \<open>_onehot_coding\<close> returns a tensor of shape
  \<open>(B, output_dim)\<close> whose row \<open>i\<close> has a one at column \<open>y[i]\<close> and zero at every other
  column, so that the row sums to one; row \<open>i\<close> belongs to label \<open>i\<close>. The sum is taken
  in any additive monoid with a one.
\<close>

theorem onehot_coding_rows:
  fixes ens :: "('a::{monoid_add,one}, 'p, 'b, 'g) ensemble"
  assumes "0 \<le> output_dim ens" and "\<forall>l \<in> set y. 0 \<le> l \<and> l < output_dim ens"
  shows "\<exists>t. onehot_coding ens y = Inr t \<and> has_shape (length y) (nat (output_dim ens)) t \<and>
     (\<forall>i < length y.
        (\<forall>j < nat (output_dim ens). entry t i j = (if int j = y ! i then 1 else 0)) \<and>
        sum_list (rows t ! i) = 1)"
proof -
  let ?D = "nat (output_dim ens)"
  let ?t = "Tensor ?D (map (\<lambda>l. (replicate ?D (0::'a))[nat l := 1]) y)"
  have eq: "onehot_coding ens y = Inr ?t" by (rule onehot_coding_eq [OF assms])
  have shape: "has_shape (length y) ?D ?t"
    by (simp add: has_shape_def list_all_iff)
  have rows: "(\<forall>j < ?D. entry ?t i j = (if int j = y ! i then 1 else 0)) \<and> sum_list (rows ?t ! i) = 1"
    if "i < length y" for i
  proof -
    from that assms(2) have r: "0 \<le> y ! i" "y ! i < output_dim ens" by auto
    then have lt: "nat (y ! i) < ?D" by simp
    have "entry ?t i j = (if int j = y ! i then 1 else 0)" if "j < ?D" for j
      using \<open>i < length y\<close> that r by (auto simp: entry_def nth_list_update)
    moreover have "sum_list (rows ?t ! i) = 1"
      using \<open>i < length y\<close> lt by (simp add: sum_list_replicate_update)
    ultimately show ?thesis by blast
  qed
  from eq shape rows show ?thesis by blast
qed

theorem onehot_coding_rows_witness:
  "\<exists>t. onehot_coding scenario_ens [1, 3] = Inr t \<and> has_shape 2 4 t \<and>
     entry t 0 1 = 1 \<and> entry t 0 0 = 0 \<and> entry t 1 3 = 1 \<and> entry t 1 2 = 0 \<and>
     sum_list (rows t ! 0) = 1 \<and> sum_list (rows t ! 1) = 1"
proof -
  have a: "0 \<le> output_dim scenario_ens" by (simp add: scenario_ens_def)
  have b: "\<forall>l \<in> set [1, 3]. 0 \<le> l \<and> l < output_dim scenario_ens"
    by (simp add: scenario_ens_def)
  from onehot_coding_rows [OF a b] obtain t where
    t: "onehot_coding scenario_ens [1, 3] = Inr t"
       "has_shape (length [1, 3 :: int]) (nat (output_dim scenario_ens)) t"
    and r: "\<And>i. i < length [1, 3 :: int] \<Longrightarrow>
          (\<forall>j < nat (output_dim scenario_ens). entry t i j = (if int j = [1, 3] ! i then 1 else 0)) \<and>
          sum_list (rows t ! i) = 1"
    by blast
  have d: "nat (output_dim scenario_ens) = 4" by (simp add: scenario_ens_def)
  from r [of 0] have r0: "\<And>j. j < 4 \<Longrightarrow> entry t 0 j = (if int j = 1 then 1 else 0)"
    and s0: "sum_list (rows t ! 0) = 1" by (simp_all add: d)
  from r [of 1] have r1: "\<And>j. j < 4 \<Longrightarrow> entry t 1 j = (if int j = 3 then 1 else 0)"
    and s1: "sum_list (rows t ! 1) = 1" by (simp_all add: d)
  from r0 [of 1] r0 [of 0] r1 [of 3] r1 [of 2]
  have "entry t 0 1 = 1" "entry t 0 0 = 0" "entry t 1 3 = 1" "entry t 1 2 = 0" by simp_all
  moreover have "has_shape 2 4 t" using t(2) by (simp add: d numeral_2_eq_2)
  ultimately show ?thesis using t(1) s0 s1 by auto
qed

subsection \<open>Prediction\<close>

lemma has_shape_zeros:
  "0 \<le> D \<Longrightarrow> \<exists>z. zeros B D = Inr z \<and> has_shape B (nat D) z \<and> (\<forall>i<B. \<forall>j<nat D. entry z i j = 0)"
  by (simp add: zeros_def has_shape_def list_all_iff entry_def)

lemma has_shape_smul:
  "has_shape B D t \<Longrightarrow> has_shape B D (smul s t)"
  by (cases t) (simp add: has_shape_def smul_def list_all_iff)

lemma entry_smul:
  "has_shape B D t \<Longrightarrow> i < B \<Longrightarrow> j < D \<Longrightarrow> entry (smul s t) i j = s * entry t i j"
  by (cases t) (auto simp: has_shape_def smul_def entry_def list_all_iff)

lemma iadd_same_shape:
  assumes "has_shape B D a" and "has_shape B D b"
  shows "\<exists>c. iadd a b = Inr c \<and> has_shape B D c \<and>
    (\<forall>i<B. \<forall>j<D. entry c i j = entry a i j + entry b i j)"
proof -
  from assms have n: "ncols a = D" "ncols b = D" "length (rows a) = B" "length (rows b) = B"
    and la: "\<And>r. r \<in> set (rows a) \<Longrightarrow> length r = D"
    and lb: "\<And>r. r \<in> set (rows b) \<Longrightarrow> length r = D"
    by (auto simp: has_shape_def list_all_iff)
  let ?c = "Tensor D (map2 (\<lambda>ra rb. map2 (+) ra rb) (rows a) (rows b))"
  have "map2 (\<lambda>ra rb. map2 (+) ra (bcast D rb)) (rows a) (rows b)
      = map2 (\<lambda>ra rb. map2 (+) ra rb) (rows a) (rows b)"
    by (rule map_cong) (auto simp: bcast_def dest!: set_zip_rightD lb)
  then have eq: "iadd a b = Inr ?c"
    using n by (simp add: iadd_def bcast_def)
  have "length (map2 (+) ra rb) = D" if "(ra, rb) \<in> set (zip (rows a) (rows b))" for ra rb
    using la [OF set_zip_leftD [OF that]] lb [OF set_zip_rightD [OF that]] by simp
  then have sh: "has_shape B D ?c"
    using n by (auto simp: has_shape_def list_all_iff)
  have "entry ?c i j = entry a i j + entry b i j" if "i < B" "j < D" for i j
  proof -
    have "length (rows a ! i) = D" "length (rows b ! i) = D"
      using that n la lb by auto
    then show ?thesis using that n by (simp add: entry_def)
  qed
  with eq sh show ?thesis by blast
qed

text \<open>One pass of \<^verbatim>\<open>acc += s * learner(X)\<close> for a learner that keeps the contract.\<close>

lemma call_add_step:
  fixes s :: "'a::{plus,times}"
  assumes "fwd (params l) (buffers l) m X = Inr r" and "has_shape B D (fst r)"
    and "has_shape B D (data acc)"
  shows "\<exists>acc'. call_learner fwd m idx l X
        = Inr (Var (fst r) (if grad_mode m then {idx} else {}), called l r) \<and>
      add_scaled m s acc (Var (fst r) (if grad_mode m then {idx} else {})) = Inr acc' \<and>
      has_shape B D (data acc') \<and>
      graph acc' = (if grad_mode m then insert idx (graph acc) else {}) \<and>
      (\<forall>i<B. \<forall>j<D. entry (data acc') i j = entry (data acc) i j + s * entry (fst r) i j)"
proof -
  from iadd_same_shape [OF assms(3) has_shape_smul [OF assms(2), of s]]
  obtain c where c: "iadd (data acc) (smul s (fst r)) = Inr c" "has_shape B D c"
    and ce: "\<And>i j. i < B \<Longrightarrow> j < D \<Longrightarrow> entry c i j = entry (data acc) i j + entry (smul s (fst r)) i j"
    by blast
  have "call_learner fwd m idx l X = Inr (Var (fst r) (if grad_mode m then {idx} else {}), called l r)"
    using assms(1) by (cases r) (simp add: call_learner_def called_def)
  moreover have "add_scaled m s acc (Var (fst r) (if grad_mode m then {idx} else {}))
      = Inr (Var c (if grad_mode m then insert idx (graph acc) else {}))"
    using c(1) by (simp add: add_scaled_def)
  moreover have "entry c i j = entry (data acc) i j + s * entry (fst r) i j" if "i < B" "j < D" for i j
    using ce [OF that] entry_smul [OF assms(2) that] by simp
  ultimately show ?thesis using c(2) by simp
qed

lemma forward_loop_sum:
  fixes s :: "'a::{plus,times}"
  assumes "list_all2 (\<lambda>l r. fwd (params l) (buffers l) m X = Inr r \<and> has_shape B D (fst r)) ls outs"
    and "has_shape B D (data acc)"
  shows "\<exists>v. forward_loop fwd m s X acc idx ls = Inr (v, map2 called ls outs) \<and>
    has_shape B D (data v) \<and>
    graph v = (if grad_mode m then graph acc \<union> {idx ..< idx + length ls}
               else (if ls = [] then graph acc else {})) \<and>
    (\<forall>i<B. \<forall>j<D. entry (data v) i j
        = foldl (+) (entry (data acc) i j) (map (\<lambda>r. s * entry (fst r) i j) outs))"
  using assms
proof (induction ls outs arbitrary: acc idx rule: list_all2_induct)
  case Nil
  then show ?case by simp
next
  case (Cons l ls r outs)
  from Cons.hyps(1) have f: "fwd (params l) (buffers l) m X = Inr r" and sh: "has_shape B D (fst r)"
    by auto
  from call_add_step [where fwd = fwd and l = l and m = m and X = X and r = r and acc = acc
      and idx = idx and s = s, OF f sh Cons.prems]
  obtain acc' where c: "call_learner fwd m idx l X
        = Inr (Var (fst r) (if grad_mode m then {idx} else {}), called l r)"
      "add_scaled m s acc (Var (fst r) (if grad_mode m then {idx} else {})) = Inr acc'"
      "has_shape B D (data acc')"
      "graph acc' = (if grad_mode m then insert idx (graph acc) else {})"
    and ce: "\<And>i j. i < B \<Longrightarrow> j < D \<Longrightarrow> entry (data acc') i j = entry (data acc) i j + s * entry (fst r) i j"
    by blast
  from Cons.IH [OF c(3), of "Suc idx"]
  obtain v where v: "forward_loop fwd m s X acc' (Suc idx) ls = Inr (v, map2 called ls outs)"
      "has_shape B D (data v)"
      "graph v = (if grad_mode m then graph acc' \<union> {Suc idx ..< Suc idx + length ls}
                  else (if ls = [] then graph acc' else {}))"
    and ve: "\<And>i j. i < B \<Longrightarrow> j < D \<Longrightarrow> entry (data v) i j
        = foldl (+) (entry (data acc') i j) (map (\<lambda>r. s * entry (fst r) i j) outs)"
    by blast
  have step: "forward_loop fwd m s X acc idx (l # ls) = Inr (v, map2 called (l # ls) (r # outs))"
    using c(1) c(2) v(1) by simp
  have g: "graph v = (if grad_mode m then graph acc \<union> {idx ..< idx + length (l # ls)} else {})"
    using v(3) c(4) by (auto simp: atLeastLessThan_def)
  have "entry (data v) i j = foldl (+) (entry (data acc) i j) (map (\<lambda>r. s * entry (fst r) i j) (r # outs))"
    if "i < B" "j < D" for i j
    using ve [OF that] ce [OF that] by simp
  with step v(2) g show ?case by simp
qed

lemma map2_called_same:
  "list_all2 (\<lambda>l r. snd r = buffers l) ls outs \<Longrightarrow> map2 called ls outs = ls"
  by (induction ls outs rule: list_all2_induct) (simp_all add: called_def)

text \<open>
  C2, as amended. When every learner returns a tensor of shape \<open>(B, output_dim)\<close> on the
  batch (\<open>outs\<close> lists, in index order, what the calls of the learners return: the output
  and the buffers the call leaves), \<open>forward\<close> returns a tensor of that shape whose
  entries are the sums, started at zero and taken from the first learner to the last,
  of \<open>shrinkage_rate\<close> times the learners' entries. No law of arithmetic is used, so the
  order of the sum is the one stated. The ensemble \<open>forward\<close> leaves is the one it
  found but for the buffers that the learners' own calls wrote: every field of the
  ensemble, and the identity, parameters and gradient buffers of every learner, are as
  before. Where no call writes its buffers, the ensemble is left as it was.
\<close>

theorem forward_sum:
  fixes ens :: "('a::{zero,plus,times}, 'p, 'b, 'g) ensemble"
  assumes "0 \<le> output_dim ens"
    and "list_all2 (\<lambda>l r. fwd (params l) (buffers l) \<lparr>train_mode = training ens, grad_mode = gm\<rparr> X = Inr r \<and>
            has_shape (length X) (nat (output_dim ens)) (fst r)) (learners ens) outs"
  shows "\<exists>v. forward fwd gm ens X = Inr (v, ens\<lparr>learners := map2 called (learners ens) outs\<rparr>) \<and>
    has_shape (length X) (nat (output_dim ens)) (data v) \<and>
    (\<forall>i<length X. \<forall>j<nat (output_dim ens).
       entry (data v) i j = foldl (+) 0 (map (\<lambda>r. shrinkage_rate ens * entry (fst r) i j) outs)) \<and>
    (list_all2 (\<lambda>l r. snd r = buffers l) (learners ens) outs \<longrightarrow> forward fwd gm ens X = Inr (v, ens))"
proof -
  from has_shape_zeros [OF assms(1), of "length X"] obtain z :: "'a tensor" where
    z: "zeros (length X) (output_dim ens) = Inr z" "has_shape (length X) (nat (output_dim ens)) z"
    and ze: "\<And>i j. i < length X \<Longrightarrow> j < nat (output_dim ens) \<Longrightarrow> entry z i j = 0"
    by blast
  from forward_loop_sum [where fwd = fwd and X = X and B = "length X" and D = "nat (output_dim ens)"
      and m = "\<lparr>train_mode = training ens, grad_mode = gm\<rparr>" and acc = "Var z {}"
      and s = "shrinkage_rate ens" and idx = 0, OF assms(2)] z(2)
  obtain v where v: "forward_loop fwd \<lparr>train_mode = training ens, grad_mode = gm\<rparr> (shrinkage_rate ens) X
        (Var z {}) 0 (learners ens) = Inr (v, map2 called (learners ens) outs)"
      "has_shape (length X) (nat (output_dim ens)) (data v)"
    and ve: "\<And>i j. i < length X \<Longrightarrow> j < nat (output_dim ens) \<Longrightarrow> entry (data v) i j
        = foldl (+) (entry z i j) (map (\<lambda>r. shrinkage_rate ens * entry (fst r) i j) outs)"
    by auto
  have f: "forward fwd gm ens X = Inr (v, ens\<lparr>learners := map2 called (learners ens) outs\<rparr>)"
    using z(1) v(1) by (simp add: forward_def)
  have e: "entry (data v) i j = foldl (+) 0 (map (\<lambda>r. shrinkage_rate ens * entry (fst r) i j) outs)"
    if "i < length X" "j < nat (output_dim ens)" for i j
    using ve [OF that] ze [OF that] by simp
  have "forward fwd gm ens X = Inr (v, ens)"
    if "list_all2 (\<lambda>l r. snd r = buffers l) (learners ens) outs"
    using f map2_called_same [OF that] by simp
  with f e v(2) show ?thesis by blast
qed

lemma upt4: "[0..<4] = [0, 1, 2, 3]"
  by (simp add: upt_rec)

text \<open>
  The claim as stated fails: in training mode the learners of the scenario count the
  batch in their buffers, so the ensemble \<open>forward\<close> leaves is not the one it found.
\<close>

theorem forward_side_effect:
  "\<exists>v ens'. forward toy_module False scenario_ens [1, 3] = Inr (v, ens') \<and>
     ens' \<noteq> scenario_ens \<and>
     map buffers (learners scenario_ens) = [0, 0, 0] \<and> map buffers (learners ens') = [1, 1, 1]"
  by (simp add: forward_def zeros_def call_learner_def add_scaled_def iadd_def smul_def bcast_def
      toy_module_def scenario_ens_def upt4)

theorem forward_sum_witness:
  "\<exists>v. forward toy_module False (scenario_ens\<lparr>training := False\<rparr>) [1, 3]
        = Inr (v, scenario_ens\<lparr>training := False\<rparr>) \<and>
     has_shape 2 4 (data v) \<and>
     entry (data v) 0 1 = 6 / 10 \<and> entry (data v) 1 3 = 6 / 10 \<and> entry (data v) 1 0 = 0"
proof -
  let ?ens = "scenario_ens\<lparr>training := False\<rparr>"
  let ?outs = "[(Tensor 4 [[0, 1, 0, 0], [0, 0, 0, 1]], 0), (Tensor 4 [[0, 2, 0, 0], [0, 0, 0, 2]], 0),
     (Tensor 4 [[0, 3, 0, 0], [0, 0, 0, 3::real]], 0::nat)]"
  have a: "0 \<le> output_dim ?ens" by (simp add: scenario_ens_def)
  have b: "list_all2 (\<lambda>l r. toy_module (params l) (buffers l) \<lparr>train_mode = training ?ens, grad_mode = False\<rparr> [1, 3] = Inr r \<and>
            has_shape (length [1, 3 :: nat]) (nat (output_dim ?ens)) (fst r)) (learners ?ens) ?outs"
    by (simp add: scenario_ens_def toy_module_def upt4 has_shape_def)
  have c: "list_all2 (\<lambda>l r. snd r = buffers l) (learners ?ens) ?outs"
    by (simp add: scenario_ens_def)
  from forward_sum [where fwd = toy_module and gm = False and ens = ?ens
      and X = "[1, 3]" and outs = ?outs, OF a b] c obtain v where
    v: "forward toy_module False ?ens [1, 3] = Inr (v, ?ens)"
       "has_shape (length [1, 3 :: nat]) (nat (output_dim ?ens)) (data v)"
    and e: "\<And>i j. i < length [1, 3 :: nat] \<Longrightarrow> j < nat (output_dim ?ens) \<Longrightarrow>
       entry (data v) i j = foldl (+) 0 (map (\<lambda>r. shrinkage_rate ?ens * entry (fst r) i j) ?outs)"
    by blast
  have d: "output_dim scenario_ens = 4" "shrinkage_rate scenario_ens = 1 / 10"
    by (simp_all add: scenario_ens_def)
  from e [of 0 1] e [of 1 3] e [of 1 0]
  have "entry (data v) 0 1 = 6 / 10" "entry (data v) 1 3 = 6 / 10" "entry (data v) 1 0 = 0"
    by (simp_all add: d entry_def)
  moreover have "has_shape 2 4 (data v)" using v(2) by (simp add: d numeral_2_eq_2)
  ultimately show ?thesis using v(1) by auto
qed

subsection \<open>Construction\<close>

lemma init_loop_logged:
  "init_loop (logged f) cfg n ls (calls, s) =
     (case init_loop f cfg n ls s of
        Inl e \<Rightarrow> Inl e
      | Inr (ls', s') \<Rightarrow> Inr (ls', (calls @ replicate n cfg, s')))"
proof (induction n arbitrary: ls calls s)
  case 0
  then show ?case by simp
next
  case (Suc n)
  show ?case
  proof (cases "f cfg s")
    case (Inl e)
    then show ?thesis by (simp add: logged_def)
  next
    case (Inr r)
    then obtain pb s' where r: "f cfg s = Inr (pb, s')" by (cases r) simp
    then show ?thesis
      using Suc.IH [of "ls @ [\<lparr>ident = length ls, params = fst pb, buffers = snd pb, grad = None\<rparr>]"
          "calls @ [cfg]" s']
      by (simp add: logged_def replicate_app_Cons_same split: sum.splits)
  qed
qed

lemma init_loop_idents:
  "init_loop f cfg n ls s = Inr (ls', s') \<Longrightarrow>
     length ls' = length ls + n \<and> map ident ls' = map ident ls @ [length ls ..< length ls + n]"
proof (induction n arbitrary: ls s)
  case 0
  then show ?case by simp
next
  case (Suc n)
  from Suc.prems obtain pb s1 where r: "f cfg s = Inr (pb, s1)"
    and rest: "init_loop f cfg n
        (ls @ [\<lparr>ident = length ls, params = fst pb, buffers = snd pb, grad = None\<rparr>]) s1 = Inr (ls', s')"
    by (auto split: sum.splits)
  from Suc.IH [OF rest] show ?case
    by (simp add: upt_conv_Cons)
qed

lemma init_loop_total:
  "\<forall>s. \<exists>pb s'. f cfg s = Inr (pb, s') \<Longrightarrow> \<exists>ls' s'. init_loop f cfg n ls s = Inr (ls', s')"
proof (induction n arbitrary: ls s)
  case 0
  then show ?case by simp
next
  case (Suc n)
  from Suc.prems obtain pb s1 where r: "f cfg s = Inr (pb, s1)" by blast
  with Suc.IH [OF Suc.prems] show ?case by simp
qed

lemma init_result:
  assumes "init a learner largs s = Inr (ens, s')"
  shows "arg_n_estimators a = Some (n_estimators ens) \<and> arg_output_dim a = Some (output_dim ens) \<and>
    init_loop learner (largs(''output_dim'' \<mapsto> output_dim ens)) (nat (n_estimators ens)) [] s
      = Inr (learners ens, s')"
  using assms by (auto simp: init_def split: option.splits sum.splits)




text \<open>
  C10. With every key of \<^verbatim>\<open>args\<close> present and \<^verbatim>\<open>n_estimators = 0\<close>,
  construction returns an ensemble with no learner and leaves the interpreter's state
  as it was (the factory is not called); for \<^verbatim>\<open>output_dim \<ge> 0\<close> its \<open>forward\<close>
  returns, on every batch, the all-zero tensor of shape \<open>(B, output_dim)\<close>, and the
  ensemble unchanged. For every non-negative \<^verbatim>\<open>n_estimators\<close>, construction
  returns an ensemble of that many learners when the factory does not raise.
\<close>

theorem init_empty_forward:
  fixes fwd :: "('p, 'b, 'x, 'a::{zero,plus,times}) module"
    and learner :: "('p, 'b, 's) factory"
  assumes "arg_epochs a = Some ep" "arg_output_dim a = Some od" "arg_log_interval a = Some li"
    "arg_n_estimators a = Some n" "arg_shrinkage_rate a = Some sr" "arg_cuda a = Some cu"
  shows "(n = 0 \<longrightarrow> (\<exists>ens :: ('a, 'p, 'b, 'g) ensemble.
            init a learner learner_args s = Inr (ens, s) \<and> learners ens = [] \<and>
            (0 \<le> od \<longrightarrow> forward fwd gm ens X
               = Inr (Var (Tensor (nat od) (replicate (length X) (replicate (nat od) 0))) {}, ens)))) \<and>
         (0 \<le> n \<and> (\<forall>t. \<exists>pb t'. learner (learner_args(''output_dim'' \<mapsto> od)) t = Inr (pb, t')) \<longrightarrow>
            (\<exists>(ens :: ('a, 'p, 'b, 'g) ensemble) s'.
               init a learner learner_args s = Inr (ens, s') \<and> int (length (learners ens)) = n))"
proof -
  have one: "\<exists>ens :: ('a, 'p, 'b, 'g) ensemble.
            init a learner learner_args s = Inr (ens, s) \<and> learners ens = [] \<and>
            (0 \<le> od \<longrightarrow> forward fwd gm ens X
               = Inr (Var (Tensor (nat od) (replicate (length X) (replicate (nat od) 0))) {}, ens))"
    if "n = 0"
    using assms that by (simp add: init_def forward_def zeros_def)
  have two: "\<exists>(ens :: ('a, 'p, 'b, 'g) ensemble) s'.
      init a learner learner_args s = Inr (ens, s') \<and> int (length (learners ens)) = n"
    if "0 \<le> n" and tot: "\<forall>t. \<exists>pb t'. learner (learner_args(''output_dim'' \<mapsto> od)) t = Inr (pb, t')"
  proof -
    from init_loop_total [where f = learner and cfg = "learner_args(''output_dim'' \<mapsto> od)"
        and n = "nat n" and ls = "[]" and s = s, OF tot]
    obtain ls :: "('p, 'b, 'g) learner list" and s' where
      l: "init_loop learner (learner_args(''output_dim'' \<mapsto> od)) (nat n) [] s = Inr (ls, s')" by blast
    from init_loop_idents [OF l] have len: "length ls = nat n" by simp
    have "init a learner learner_args s =
        Inr (\<lparr>args = a, epochs = ep, output_dim = od, log_interval = li, n_estimators = n,
              shrinkage_rate = sr, device = (if cu then Cuda else Cpu), learners = ls,
              training = True\<rparr>, s')"
      by (simp add: init_def assms l)
    moreover have "int (length ls) = n" using len \<open>0 \<le> n\<close> by simp
    ultimately show ?thesis
      by (intro exI [of _ "\<lparr>args = a, epochs = ep, output_dim = od, log_interval = li, n_estimators = n,
              shrinkage_rate = sr, device = (if cu then Cuda else Cpu), learners = ls,
              training = True\<rparr>"] exI [of _ s']) simp
  qed
  from one two show ?thesis by blast
qed

theorem init_empty_forward_witness:
  "(\<exists>ens :: (real, nat \<times> real, nat, real) ensemble.
      init (scenario_args\<lparr>arg_n_estimators := Some 0\<rparr>) toy_factory Map.empty (0::nat) = Inr (ens, 0) \<and>
      learners ens = [] \<and>
      forward toy_module False ens [1, 3]
        = Inr (Var (Tensor 4 [[0, 0, 0, 0], [0, 0, 0, 0]]) {}, ens)) \<and>
   (\<exists>(ens :: (real, nat \<times> real, nat, real) ensemble) s'.
      init scenario_args toy_factory Map.empty (0::nat) = Inr (ens, s') \<and> length (learners ens) = 3)"
proof -
  have tot: "\<forall>t. \<exists>pb t'. toy_factory (Map.empty(''output_dim'' \<mapsto> 4)) t = Inr (pb, t')"
    by (simp add: toy_factory_def)
  have r4: "replicate 4 (0::real) = [0, 0, 0, 0]" by (simp add: numeral_eq_Suc)
  have r2: "replicate 2 x = [x, x]" for x :: "real list" by (simp add: numeral_eq_Suc)
  from init_empty_forward [where 'g = real and a = "scenario_args\<lparr>arg_n_estimators := Some 0\<rparr>" and ep = 1 and od = 4
      and li = 1 and n = 0 and sr = "1 / 10" and cu = False and learner = toy_factory
      and learner_args = Map.empty and s = 0 and fwd = toy_module and gm = False and X = "[1, 3]"]
  have one: "\<exists>ens :: (real, nat \<times> real, nat, real) ensemble.
      init (scenario_args\<lparr>arg_n_estimators := Some 0\<rparr>) toy_factory Map.empty (0::nat) = Inr (ens, 0) \<and>
      learners ens = [] \<and>
      forward toy_module False ens [1, 3]
        = Inr (Var (Tensor 4 [[0, 0, 0, 0], [0, 0, 0, 0]]) {}, ens)"
    by (simp add: scenario_args_def r4 r2)
  from init_empty_forward [where 'g = real and a = scenario_args and ep = 1 and od = 4
      and li = 1 and n = 3 and sr = "1 / 10" and cu = False and learner = toy_factory
      and learner_args = Map.empty and s = 0] tot
  have two: "\<exists>(ens :: (real, nat \<times> real, nat, real) ensemble) s'.
      init scenario_args toy_factory Map.empty (0::nat) = Inr (ens, s') \<and> length (learners ens) = 3"
    by (simp add: scenario_args_def)
  from one two show ?thesis by blast
qed

subsection \<open>What the operations leave of the ensemble\<close>

lemma nth_update_cases: "xs[k := v] ! j = (if j = k \<and> k < length xs then v else xs ! j)"
  by (cases "k < length xs") (auto simp: nth_list_update list_update_beyond)

lemma map_update_same: "f v = f (xs ! k) \<Longrightarrow> map f (xs[k := v]) = map f xs"
  by (simp add: list_eq_iff_nth_eq nth_update_cases)

lemma call_learner_frame:
  "call_learner fwd m idx l X = Inr (out, l') \<Longrightarrow>
   ident l' = ident l \<and> params l' = params l \<and> grad l' = grad l"
  by (auto simp: call_learner_def split: sum.splits prod.splits)

lemma forward_loop_frame:
  "forward_loop fwd m s X acc idx ls = Inr (v, ls') \<Longrightarrow>
   map ident ls' = map ident ls \<and> map params ls' = map params ls \<and> map grad ls' = map grad ls"
proof (induction ls arbitrary: acc idx v ls')
  case Nil
  then show ?case by simp
next
  case (Cons l ls)
  from Cons.prems obtain out l1 acc1 ls1 where
    c: "call_learner fwd m idx l X = Inr (out, l1)"
    and r: "forward_loop fwd m s X acc1 (Suc idx) ls = Inr (v, ls1)"
    and e: "ls' = l1 # ls1"
    by (auto split: sum.splits prod.splits)
  from call_learner_frame [OF c] Cons.IH [OF r] e show ?case by simp
qed

lemma residual_loop_frame:
  "residual_loop fwd m s X out ls idxs = Inr (v, ls') \<Longrightarrow>
   map ident ls' = map ident ls \<and> map params ls' = map params ls \<and> map grad ls' = map grad ls"
proof (induction idxs arbitrary: out ls)
  case Nil
  then show ?case by simp
next
  case (Cons idx idxs)
  from Cons.prems obtain o1 l1 out1 where
    c: "call_learner fwd m idx (ls ! idx) X = Inr (o1, l1)"
    and r: "residual_loop fwd m s X out1 (ls[idx := l1]) idxs = Inr (v, ls')"
    by (auto split: sum.splits prod.splits if_splits)
  from call_learner_frame [OF c] have "ident l1 = ident (ls ! idx)" "params l1 = params (ls ! idx)"
    "grad l1 = grad (ls ! idx)" by simp_all
  then have "map ident (ls[idx := l1]) = map ident ls" "map params (ls[idx := l1]) = map params ls"
    "map grad (ls[idx := l1]) = map grad ls"
    by (simp_all add: map_update_same)
  with Cons.IH [OF r] show ?case by simp
qed

lemma only_buffers_changed_refl: "only_buffers_changed ens ens"
  by (simp add: only_buffers_changed_def)

lemma only_buffers_changed_trans:
  assumes "only_buffers_changed a b" and "only_buffers_changed b c"
  shows "only_buffers_changed a c"
proof -
  from assms(1) have ab: "b = a\<lparr>learners := learners b\<rparr>" by (simp add: only_buffers_changed_def)
  from assms(2) have bc: "c = b\<lparr>learners := learners c\<rparr>" by (simp add: only_buffers_changed_def)
  have "c = a\<lparr>learners := learners c\<rparr>"
    by (subst bc, subst ab) simp
  then show ?thesis
    using assms by (simp add: only_buffers_changed_def)
qed

lemma forward_frame:
  assumes "forward fwd gm ens X = Inr (v, ens')"
  shows "only_buffers_changed ens ens'"
proof -
  from assms obtain z ls' where
    l: "forward_loop fwd \<lparr>train_mode = training ens, grad_mode = gm\<rparr> (shrinkage_rate ens) X
          (Var z {}) 0 (learners ens) = Inr (v, ls')"
    and e: "ens' = ens\<lparr>learners := ls'\<rparr>"
    by (auto simp: forward_def split: sum.splits prod.splits)
  from forward_loop_frame [OF l] e show ?thesis by (simp add: only_buffers_changed_def)
qed

lemma pseudo_residual_frame:
  assumes "pseudo_residual fwd ex gm ens X y k = Inr (v, ens')"
  shows "only_buffers_changed ens ens'"
proof (cases "k = 0")
  case True
  with assms have "ens' = ens"
    by (auto simp: pseudo_residual_def Let_def split: sum.splits)
  then show ?thesis by (simp add: only_buffers_changed_refl)
next
  case False
  with assms obtain out0 out1 ls' where
    l: "residual_loop fwd \<lparr>train_mode = training ens, grad_mode = gm\<rparr> (shrinkage_rate ens) X
          out0 (learners ens) [0..<nat k] = Inr (out1, ls')"
    and e: "ens' = ens\<lparr>learners := ls'\<rparr>"
    by (auto simp: pseudo_residual_def Let_def split: sum.splits prod.splits)
  from residual_loop_frame [OF l] e show ?thesis by (simp add: only_buffers_changed_def)
qed

lemma length_backward: "length (backward T ens X y k G ls) = length ls"
  by (simp add: backward_def)

lemma nth_backward:
  "j < length ls \<Longrightarrow> backward T ens X y k G ls ! j =
     (if j \<in> G then (ls ! j)\<lparr>grad := Some (accumulate T (grad (ls ! j)) (autograd T ens X y k j))\<rparr>
      else ls ! j)"
  by (simp add: backward_def nth_enumerate_eq)

lemma backward_frame:
  "map ident (backward T ens X y k G ls) = map ident ls"
  "map params (backward T ens X y k G ls) = map params ls"
  "map buffers (backward T ens X y k G ls) = map buffers ls"
  by (simp_all add: list_eq_iff_nth_eq length_backward nth_backward)

lemma only_learner_changed_refl: "only_learner_changed k ens ens"
  by (simp add: only_learner_changed_def)

lemma only_learner_changed_trans:
  assumes "only_learner_changed k a b" and "only_learner_changed k b c"
  shows "only_learner_changed k a c"
proof -
  from assms have len: "length (learners b) = length (learners a)"
    by (metis length_map only_learner_changed_def)
  from assms(1) have ab: "b = a\<lparr>learners := learners b\<rparr>" by (simp add: only_learner_changed_def)
  from assms(2) have bc: "c = b\<lparr>learners := learners c\<rparr>" by (simp add: only_learner_changed_def)
  have "c = a\<lparr>learners := learners c\<rparr>"
    by (subst bc, subst ab) simp
  then show ?thesis
    using assms len by (simp add: only_learner_changed_def)
qed

lemma only_buffers_then_learner:
  assumes "only_buffers_changed ens ens'"
  shows "only_learner_changed k ens ens'"
proof -
  from assms have p: "map params (learners ens') = map params (learners ens)"
    by (simp add: only_buffers_changed_def)
  have "params (learners ens' ! j) = params (learners ens ! j)" if "j < length (learners ens)" for j
  proof -
    from p have "length (learners ens') = length (learners ens)" by (rule map_eq_imp_length_eq)
    with that have "params (learners ens' ! j) = map params (learners ens') ! j" by simp
    also have "\<dots> = params (learners ens ! j)" using that by (simp add: p)
    finally show ?thesis .
  qed
  with assms show ?thesis by (simp add: only_learner_changed_def only_buffers_changed_def)
qed

lemma train_step_frame:
  assumes "train_step T fwd ex gm ens k opt X y = Inr (ens', opt', loss)"
  shows "only_learner_changed k ens ens'"
proof -
  from assms obtain y_residual ens1 outp l1 G p' where
    pr: "pseudo_residual fwd ex gm ens X y (int k) = Inr (y_residual, ens1)"
    and c: "call_learner fwd \<lparr>train_mode = training ens1, grad_mode = gm\<rparr> k (learners ens1 ! k) X
          = Inr (outp, l1)"
    and e: "ens' = ens1\<lparr>learners :=
          (backward T ens X y k G ((learners ens1)[k := l1\<lparr>grad := zero_grad T (grad l1)\<rparr>]))
          [k := (backward T ens X y k G ((learners ens1)[k := l1\<lparr>grad := zero_grad T (grad l1)\<rparr>]) ! k)
                  \<lparr>params := p'\<rparr>]\<rparr>"
    by (fastforce simp: train_step_def Let_def split: sum.splits if_splits prod.splits)
  let ?ls1 = "(learners ens1)[k := l1\<lparr>grad := zero_grad T (grad l1)\<rparr>]"
  let ?ls2 = "backward T ens X y k G ?ls1"
  from call_learner_frame [OF c] have l1: "ident l1 = ident (learners ens1 ! k)"
    "params l1 = params (learners ens1 ! k)" by simp_all
  have i1: "map ident ?ls1 = map ident (learners ens1)"
    using l1 by (simp add: map_update_same)
  have p1: "map params ?ls1 = map params (learners ens1)"
    using l1 by (simp add: map_update_same)
  have ids: "map ident (learners ens') = map ident (learners ens1)"
    unfolding e using i1 backward_frame(1) [of T ens X y k G ?ls1]
    by (simp add: map_update_same)
  have len: "length (learners ens1) = length (learners ens')"
    using ids by (metis length_map)
  have pj: "params (learners ens' ! j) = params (learners ens1 ! j)"
    if "j < length (learners ens1)" "j \<noteq> k" for j
  proof -
    have "params (learners ens' ! j) = params (?ls2 ! j)"
      unfolding e using that by (simp add: nth_update_cases)
    also have "\<dots> = map params ?ls2 ! j"
      using that by (simp add: length_backward)
    also have "\<dots> = params (learners ens1 ! j)"
      using that by (simp add: backward_frame(2) p1)
    finally show ?thesis .
  qed
  have "ens' = ens1\<lparr>learners := learners ens'\<rparr>" by (simp add: e)
  with ids pj have "only_learner_changed k ens1 ens'" by (simp add: only_learner_changed_def)
  with only_buffers_then_learner [OF pseudo_residual_frame [OF pr], of k]
  show ?thesis by (rule only_learner_changed_trans)
qed

lemma fit_batches_frame:
  "fit_batches T fwd ex gm k epoch batch_idx bs (ens, opt, out) = Inr (ens', opt', out') \<Longrightarrow>
   only_learner_changed k ens ens'"
proof (induction bs arbitrary: ens opt out batch_idx)
  case Nil
  then show ?case by (simp add: only_learner_changed_refl)
next
  case (Cons b bs)
  obtain X y where b: "b = (X, y)" by (cases b)
  from Cons.prems b obtain ens1 opt1 loss out1 where
    s: "train_step T fwd ex gm ens k opt X y = Inr (ens1, opt1, loss)"
    and r: "fit_batches T fwd ex gm k epoch (Suc batch_idx) bs (ens1, opt1, out1) = Inr (ens', opt', out')"
    by (auto split: sum.splits if_splits)
  from only_learner_changed_trans [OF train_step_frame [OF s] Cons.IH [OF r]] show ?case .
qed

lemma fit_epochs_frame:
  "fit_epochs T fwd ex gm k bs es (ens, opt, out) = Inr (ens', opt', out') \<Longrightarrow>
   only_learner_changed k ens ens'"
proof (induction es arbitrary: ens opt out)
  case Nil
  then show ?case by (simp add: only_learner_changed_refl)
next
  case (Cons e es)
  from Cons.prems obtain ens1 opt1 out1 where
    s: "fit_batches T fwd ex gm k e 0 bs (ens, opt, out) = Inr (ens1, opt1, out1)"
    and r: "fit_epochs T fwd ex gm k bs es (ens1, opt1, out1) = Inr (ens', opt', out')"
    by (auto split: sum.splits)
  from only_learner_changed_trans [OF fit_batches_frame [OF s] Cons.IH [OF r]] show ?case .
qed

lemma fit_learner_frame:
  "fit_learner T fwd ex gm bs k (ens, out) = Inr (ens', out') \<Longrightarrow> only_learner_changed k ens ens'"
  by (auto simp: fit_learner_def split: option.splits sum.splits dest: fit_epochs_frame)

lemma fit_learners_sequence:
  "fit_learners T fwd ex gm bs ks (ens, out) = Inr (ens', out') \<Longrightarrow>
   ens' = ens\<lparr>learners := learners ens'\<rparr> \<and> map ident (learners ens') = map ident (learners ens)"
proof (induction ks arbitrary: ens out)
  case Nil
  then show ?case by simp
next
  case (Cons k ks)
  from Cons.prems obtain ens1 out1 where
    s: "fit_learner T fwd ex gm bs k (ens, out) = Inr (ens1, out1)"
    and r: "fit_learners T fwd ex gm bs ks (ens1, out1) = Inr (ens', out')"
    by (auto split: sum.splits)
  from fit_learner_frame [OF s] have a: "ens1 = ens\<lparr>learners := learners ens1\<rparr>"
    "map ident (learners ens1) = map ident (learners ens)"
    by (simp_all add: only_learner_changed_def)
  from Cons.IH [OF r] have b: "ens' = ens1\<lparr>learners := learners ens'\<rparr>"
    "map ident (learners ens') = map ident (learners ens1)" by simp_all
  have "ens' = ens\<lparr>learners := learners ens'\<rparr>"
    by (subst b(1), subst a(1)) simp
  with a(2) b(2) show ?case by simp
qed

lemma fit_sequence:
  assumes "fit T fwd ex gm ens bs = Inr (ens', out)"
  shows "ens' = ens\<lparr>training := True, learners := learners ens'\<rparr> \<and>
    map ident (learners ens') = map ident (learners ens)"
  using fit_learners_sequence [of T fwd ex gm bs "[0..<length (learners ens)]" "ens\<lparr>training := True\<rparr>" "[]" ens' out]
    assms by (simp add: fit_def)

lemma evaluate_loop_frame:
  "evaluate_loop fwd ens bs c = Inr (c', ens') \<Longrightarrow> only_buffers_changed ens ens'"
proof (induction bs arbitrary: ens c)
  case Nil
  then show ?case by (simp add: only_buffers_changed_refl)
next
  case (Cons b bs)
  obtain X y where b: "b = (X, y)" by (cases b)
  from Cons.prems b obtain outp ens1 c1 where
    p: "forward fwd False ens X = Inr (outp, ens1)"
    and r: "evaluate_loop fwd ens1 bs c1 = Inr (c', ens')"
    by (auto simp: predict_def split: sum.splits prod.splits)
  from only_buffers_changed_trans [OF forward_frame [OF p] Cons.IH [OF r]] show ?case .
qed

lemma evaluate_sequence:
  assumes "evaluate fwd ens L = Inr (ens', out)"
  shows "only_buffers_changed (ens\<lparr>training := False\<rparr>) ens'"
proof -
  from assms obtain c where "evaluate_loop fwd (ens\<lparr>training := False\<rparr>) (batches L) 0 = Inr (c, ens')"
    by (auto simp: evaluate_def split: sum.splits prod.splits if_splits)
  then show ?thesis by (rule evaluate_loop_frame)
qed

subsection \<open>The scenario, evaluated\<close>

lemma enum3: "enumerate 0 [a, b, c] = [(0, a), (1, b), (2, c)]"
  by (simp add: enumerate_eq_zip upt_rec)

lemma replicate4: "replicate 4 x = [x, x, x, x]"
  by (simp add: numeral_eq_Suc)

lemmas toy_simps = replicate4 train_step_def pseudo_residual_def onehot_coding_def zeros_def
  zeros_like_def call_learner_def add_scaled_def iadd_def smul_def bcast_def residual_of_def
  tsub_def softmax_def softmax_row_def toy_module_def toy_trainer_def scenario_ens_def
  scenario_args_def backward_def upt4 enum3 Let_def forward_def predict_def

lemma scenario_init: "init scenario_args toy_factory Map.empty 0 = Inr (scenario_ens, 3)"
  by (simp add: init_def scenario_args_def scenario_ens_def toy_factory_def numeral_3_eq_3)

lemma scenario_init_logged:
  "init scenario_args (logged toy_factory) Map.empty ([], 0)
     = Inr (scenario_ens, (replicate 3 (Map.empty(''output_dim'' \<mapsto> 4)), 3))"
  by (simp add: init_def scenario_args_def scenario_ens_def toy_factory_def logged_def numeral_3_eq_3)

lemma scenario_step1:
  "train_step toy_trainer toy_module exp True scenario_ens 1 0 [1, 3] [1, 3]
   = Inr (scenario_ens\<lparr>learners :=
       [\<lparr>ident = 0, params = (4, 1), buffers = 1, grad = Some 1\<rparr>,
        \<lparr>ident = 1, params = (4, 2 - 1 / 1000), buffers = 1, grad = Some 1\<rparr>,
        \<lparr>ident = 2, params = (4, 3), buffers = 0, grad = None\<rparr>]\<rparr>, 1, 0)"
  by (simp add: toy_simps upt_conv_Cons)

lemma scenario_fit_learner1:
  "fit_learner toy_trainer toy_module exp True [([1, 3], [1, 3])] 1 (scenario_ens, [])
   = Inr (scenario_ens\<lparr>learners :=
       [\<lparr>ident = 0, params = (4, 1), buffers = 1, grad = Some 1\<rparr>,
        \<lparr>ident = 1, params = (4, 2 - 1 / 1000), buffers = 1, grad = Some 1\<rparr>,
        \<lparr>ident = 2, params = (4, 3), buffers = 0, grad = None\<rparr>]\<rparr>, [Status 2 1 1 0])"
proof -
  have a: "arg_lr (args scenario_ens) = Some (1 / 1000)" "arg_weight_decay (args scenario_ens) = Some 0"
    "epochs scenario_ens = 1" by (simp_all add: scenario_ens_def scenario_args_def)
  have l: "log_interval (scenario_ens\<lparr>learners := ls\<rparr>) = 1" for ls
    by (simp add: scenario_ens_def)
  have t: "adam toy_trainer lr wd p = 0" for lr wd p by (simp add: toy_trainer_def)
  show ?thesis
    by (simp add: fit_learner_def a t upt_rec [of 0 1] scenario_step1 l del: One_nat_def)
qed

lemma scenario_fit:
  "fit toy_trainer toy_module exp True scenario_ens [([1, 3], [1, 3])]
   = Inr (scenario_ens\<lparr>learners :=
       [\<lparr>ident = 0, params = (4, 1 - 1 / 1000), buffers = 3, grad = Some 3\<rparr>,
        \<lparr>ident = 1, params = (4, 2 - 1 / 1000), buffers = 2, grad = Some 2\<rparr>,
        \<lparr>ident = 2, params = (4, 3 - 1 / 1000), buffers = 1, grad = Some 1\<rparr>]\<rparr>,
      [Status 1 1 1 0, Status 2 1 1 0, Status 3 1 1 0])"
  by (simp add: fit_def fit_learner_def toy_simps upt_conv_Cons)

lemma scenario_evaluate:
  "evaluate toy_module scenario_ens \<lparr>batches = [([1, 3], [1, 3]), ([0], [2])], dataset_len = 3\<rparr>
   = Inr (scenario_ens\<lparr>training := False\<rparr>, [Accuracy (100 * 2 / 3)])"
  by (simp add: evaluate_def toy_simps max_dim1_def argmax_row_def eq_count_def)

lemma scenario_residual1:
  "\<exists>t. pseudo_residual toy_module exp True scenario_ens [1, 3] [1, 3] 1
     = Inr (Var t {0}, scenario_ens\<lparr>learners :=
       [\<lparr>ident = 0, params = (4, 1), buffers = 1, grad = None\<rparr>,
        \<lparr>ident = 1, params = (4, 2), buffers = 0, grad = None\<rparr>,
        \<lparr>ident = 2, params = (4, 3), buffers = 0, grad = None\<rparr>]\<rparr>)"
  by (simp add: toy_simps upt_conv_Cons)

lemma scenario_forward:
  "\<exists>t. forward toy_module False scenario_ens [1, 3]
     = Inr (Var t {}, scenario_ens\<lparr>learners :=
       [\<lparr>ident = 0, params = (4, 1), buffers = 1, grad = None\<rparr>,
        \<lparr>ident = 1, params = (4, 2), buffers = 1, grad = None\<rparr>,
        \<lparr>ident = 2, params = (4, 3), buffers = 1, grad = None\<rparr>]\<rparr>)"
  by (simp add: toy_simps)

subsection \<open>Training\<close>

text \<open>
  C3. The training phase of learner \<open>k\<close> (the body of the outer loop of \<open>fit\<close>: the new
  optimizer, and for every epoch and batch the residual, the output, the loss,
  \<^verbatim>\<open>zero_grad\<close>, \<^verbatim>\<open>backward\<close> and the optimizer step) leaves the learner
  sequence as long as it was and the parameters of every learner of another index as
  they were. (The gradient buffers of the earlier learners are another matter.)
\<close>

theorem fit_learner_frame_params:
  assumes "fit_learner T fwd ex gm train_loader k (ens, out) = Inr (ens', out')"
  shows "length (learners ens') = length (learners ens) \<and>
    (\<forall>j < length (learners ens). j \<noteq> k \<longrightarrow> params (learners ens' ! j) = params (learners ens ! j))"
proof -
  from fit_learner_frame [OF assms] have f: "only_learner_changed k ens ens'" .
  then have "map ident (learners ens') = map ident (learners ens)"
    by (simp add: only_learner_changed_def)
  then have "length (learners ens') = length (learners ens)"
    by (rule map_eq_imp_length_eq)
  with f show ?thesis by (simp add: only_learner_changed_def)
qed

theorem fit_learner_frame_params_witness:
  "\<exists>ens' out'. fit_learner toy_trainer toy_module exp True [([1, 3], [1, 3])] 1 (scenario_ens, [])
       = Inr (ens', out') \<and>
     length (learners ens') = 3 \<and>
     params (learners ens' ! 0) = params (learners scenario_ens ! 0) \<and>
     params (learners ens' ! 2) = params (learners scenario_ens ! 2) \<and>
     params (learners ens' ! 1) \<noteq> params (learners scenario_ens ! 1)"
proof -
  let ?e = "scenario_ens\<lparr>learners :=
       [\<lparr>ident = 0, params = (4, 1), buffers = 1, grad = Some 1\<rparr>,
        \<lparr>ident = 1, params = (4, 2 - 1 / 1000), buffers = 1, grad = Some 1\<rparr>,
        \<lparr>ident = 2, params = (4, 3), buffers = 0, grad = None\<rparr>]\<rparr>"
  have len: "length (learners scenario_ens) = 3" by (simp add: scenario_ens_def)
  from fit_learner_frame_params [OF scenario_fit_learner1]
  have l: "length (learners ?e) = length (learners scenario_ens)"
    and p: "\<And>j. j < length (learners scenario_ens) \<Longrightarrow> j \<noteq> 1 \<Longrightarrow>
          params (learners ?e ! j) = params (learners scenario_ens ! j)"
    by blast+
  from p [of 0] p [of 2] have "params (learners ?e ! 0) = params (learners scenario_ens ! 0)"
    "params (learners ?e ! 2) = params (learners scenario_ens ! 2)"
    by (simp_all add: len)
  moreover have "params (learners ?e ! 1) \<noteq> params (learners scenario_ens ! 1)"
    by (simp add: scenario_ens_def)
  moreover have "length (learners ?e) = 3" using l len by simp
  ultimately show ?thesis using scenario_fit_learner1 by blast
qed

lemma residual_loop_graph:
  "residual_loop fwd m s X out ls idxs = Inr (v, ls') \<Longrightarrow>
   graph v = (if grad_mode m then graph out \<union> set idxs else if idxs = [] then graph out else {})"
proof (induction idxs arbitrary: out ls)
  case Nil
  then show ?case by simp
next
  case (Cons idx idxs)
  from Cons.prems obtain o1 l1 out1 where
    c: "call_learner fwd m idx (ls ! idx) X = Inr (o1, l1)"
    and a: "add_scaled m s out o1 = Inr out1"
    and r: "residual_loop fwd m s X out1 (ls[idx := l1]) idxs = Inr (v, ls')"
    by (auto split: sum.splits prod.splits if_splits)
  from c have "graph o1 = (if grad_mode m then {idx} else {})"
    by (auto simp: call_learner_def split: sum.splits prod.splits)
  with a have "graph out1 = (if grad_mode m then insert idx (graph out) else {})"
    by (auto simp: add_scaled_def split: sum.splits)
  with Cons.IH [OF r] show ?case by auto
qed

text \<open>
  The residual \<open>_pseudo_residual\<close> returns under the ambient gradient mode of \<open>fit\<close> is
  attached to every earlier learner, and a training step of learner \<open>k\<close> deposits a
  gradient in each of them.
\<close>

lemma pseudo_residual_graph:
  assumes "pseudo_residual fwd ex gm ens X y k = Inr (v, ens')"
  shows "graph v = (if gm then {0..<nat k} else {})"
proof (cases "k = 0")
  case True
  with assms show ?thesis
    by (auto simp: pseudo_residual_def residual_of_def Let_def split: sum.splits if_splits)
next
  case False
  with assms obtain y_onehot out1 ls' where
    l: "residual_loop fwd \<lparr>train_mode = training ens, grad_mode = gm\<rparr> (shrinkage_rate ens) X
          (Var (zeros_like y_onehot) {}) (learners ens) [0..<nat k] = Inr (out1, ls')"
    and e: "v = residual_of ex \<lparr>train_mode = training ens, grad_mode = gm\<rparr> y_onehot out1"
    by (auto simp: pseudo_residual_def Let_def split: sum.splits prod.splits)
  from residual_loop_graph [OF l] e show ?thesis
    by (auto simp: residual_of_def)
qed

lemma train_step_deposits:
  assumes "train_step T fwd ex True ens k opt X y = Inr (ens', opt', loss)"
    and "j < k" and "k < length (learners ens)"
  shows "grad (learners ens' ! j)
    = Some (accumulate T (grad (learners ens ! j)) (autograd T ens X y k j))"
proof -
  let ?m = "\<lambda>e. \<lparr>train_mode = training e, grad_mode = True\<rparr>"
  from assms(1) obtain y_residual ens1 outp l1 p' where
    pr: "pseudo_residual fwd ex True ens X y (int k) = Inr (y_residual, ens1)"
    and c: "call_learner fwd (?m ens1) k (learners ens1 ! k) X = Inr (outp, l1)"
    and e: "ens' = ens1\<lparr>learners :=
          (backward T ens X y k (graph outp \<union> graph y_residual)
              ((learners ens1)[k := l1\<lparr>grad := zero_grad T (grad l1)\<rparr>]))
          [k := (backward T ens X y k (graph outp \<union> graph y_residual)
                  ((learners ens1)[k := l1\<lparr>grad := zero_grad T (grad l1)\<rparr>]) ! k)
                  \<lparr>params := p'\<rparr>]\<rparr>"
    by (fastforce simp: train_step_def Let_def split: sum.splits if_splits prod.splits)
  let ?G = "graph outp \<union> graph y_residual"
  let ?ls1 = "(learners ens1)[k := l1\<lparr>grad := zero_grad T (grad l1)\<rparr>]"
  from pseudo_residual_graph [OF pr] assms(2) have jG: "j \<in> ?G" by simp
  from pseudo_residual_frame [OF pr] have g: "map grad (learners ens1) = map grad (learners ens)"
    by (simp add: only_buffers_changed_def)
  then have len: "length (learners ens1) = length (learners ens)" by (rule map_eq_imp_length_eq)
  with assms have j1: "j < length ?ls1" "j \<noteq> k" by simp_all
  have "grad (learners ens1 ! j) = map grad (learners ens1) ! j" using j1 by simp
  also have "\<dots> = grad (learners ens ! j)" using g assms by simp
  finally have gj: "grad (learners ens1 ! j) = grad (learners ens ! j)" .
  have "learners ens' ! j = backward T ens X y k ?G ?ls1 ! j"
    unfolding e using j1 by (simp add: nth_update_cases)
  also have "\<dots> = (?ls1 ! j)\<lparr>grad := Some (accumulate T (grad (?ls1 ! j)) (autograd T ens X y k j))\<rparr>"
    using nth_backward [OF j1(1), of T ens X y k ?G] jG by simp
  finally show ?thesis using j1 gj by (simp add: nth_update_cases)
qed

text \<open>
  C4 fails on the code. In the scenario, the residual for learner 1 is attached to
  learner 0 (its forward pass ran with gradient tracking enabled), and the training step
  of learner 1 leaves a gradient in the buffer of learner 0, which had none.
\<close>

theorem residual_tracks_gradients:
  "(\<exists>t e. pseudo_residual toy_module exp True scenario_ens [1, 3] [1, 3] 1 = Inr (Var t {0}, e)) \<and>
   (\<exists>e opt loss. train_step toy_trainer toy_module exp True scenario_ens 1 0 [1, 3] [1, 3]
        = Inr (e, opt, loss) \<and>
      grad (learners scenario_ens ! 0) = None \<and> grad (learners e ! 0) = Some 1)"
proof -
  from scenario_residual1 have "\<exists>t e. pseudo_residual toy_module exp True scenario_ens [1, 3] [1, 3] 1
      = Inr (Var t {0}, e)" by blast
  moreover have "grad (learners scenario_ens ! 0) = None" by (simp add: scenario_ens_def)
  ultimately show ?thesis using scenario_step1 by simp
qed

subsection \<open>The learner sequence\<close>

lemma only_buffers_changed_sequence:
  assumes "only_buffers_changed e e'"
  shows "n_estimators e' = n_estimators e \<and> map ident (learners e') = map ident (learners e)"
proof -
  from assms have eq: "e' = e\<lparr>learners := learners e'\<rparr>"
    and ids: "map ident (learners e') = map ident (learners e)"
    by (simp_all add: only_buffers_changed_def)
  from eq have "n_estimators e' = n_estimators (e\<lparr>learners := learners e'\<rparr>)" by simp
  then have "n_estimators e' = n_estimators e" by simp
  with ids show ?thesis by simp
qed

text \<open>
  C8. Construction calls the factory exactly \<^verbatim>\<open>n_estimators\<close> times, each time with
  the learner configuration into which \<^verbatim>\<open>output_dim\<close> has been injected (\<open>calls\<close>
  is the record the instrumented factory keeps; the ensemble built is the one the plain
  factory builds), and the learner sequence it builds has length \<^verbatim>\<open>n_estimators\<close>,
  the module objects being numbered in the order of their construction. Whatever state
  \<open>e\<close> the ensemble is in, \<open>forward\<close>, \<open>_pseudo_residual\<close>, \<open>fit\<close> and \<open>evaluate\<close>
  leave \<^verbatim>\<open>n_estimators\<close> and the sequence of module objects as they find them:
  no learner is added, removed or moved.
\<close>

theorem learner_sequence_fixed:
  fixes ens e :: "('a::{zero,one,plus,minus,times,inverse,linorder}, 'p, 'b, 'g) ensemble"
  assumes "init a (logged learner) learner_args ([], s) = Inr (ens, (calls, s'))"
    and "0 \<le> n_estimators ens"
  shows "init a learner learner_args s = Inr (ens, s') \<and>
     calls = replicate (nat (n_estimators ens)) (learner_args(''output_dim'' \<mapsto> output_dim ens)) \<and>
     arg_n_estimators a = Some (n_estimators ens) \<and> arg_output_dim a = Some (output_dim ens) \<and>
     int (length (learners ens)) = n_estimators ens \<and>
     map ident (learners ens) = [0..<length (learners ens)] \<and>
     (\<forall>v e'. forward fwd gm e X = Inr (v, e') \<longrightarrow>
        n_estimators e' = n_estimators e \<and> map ident (learners e') = map ident (learners e)) \<and>
     (\<forall>v e'. pseudo_residual fwd ex gm e X y k = Inr (v, e') \<longrightarrow>
        n_estimators e' = n_estimators e \<and> map ident (learners e') = map ident (learners e)) \<and>
     (\<forall>e' out. fit T fwd ex gm e train_loader = Inr (e', out) \<longrightarrow>
        n_estimators e' = n_estimators e \<and> map ident (learners e') = map ident (learners e)) \<and>
     (\<forall>e' out. evaluate fwd e test_loader = Inr (e', out) \<longrightarrow>
        n_estimators e' = n_estimators e \<and> map ident (learners e') = map ident (learners e))"
proof -
  let ?cfg = "learner_args(''output_dim'' \<mapsto> output_dim ens)"
  let ?n = "nat (n_estimators ens)"
  from init_result [OF assms(1)] have k: "arg_n_estimators a = Some (n_estimators ens)"
    "arg_output_dim a = Some (output_dim ens)"
    and l: "init_loop (logged learner) ?cfg ?n [] ([], s) = Inr (learners ens, (calls, s'))"
    by simp_all
  from l have p: "init_loop learner ?cfg ?n [] s = Inr (learners ens, s')"
    and c: "calls = replicate ?n ?cfg"
    by (auto simp: init_loop_logged split: sum.splits)
  from init_loop_idents [OF p] have len: "length (learners ens) = ?n"
    and ids: "map ident (learners ens) = [0..<?n]" by simp_all
  have plain: "init a learner learner_args s = Inr (ens, s')"
    using assms(1) k p l by (auto simp: init_def split: option.splits sum.splits)
  have fw: "n_estimators e' = n_estimators e \<and> map ident (learners e') = map ident (learners e)"
    if "forward fwd gm e X = Inr (v, e')" for v e'
    using only_buffers_changed_sequence [OF forward_frame [OF that]] .
  have pr: "n_estimators e' = n_estimators e \<and> map ident (learners e') = map ident (learners e)"
    if "pseudo_residual fwd ex gm e X y k = Inr (v, e')" for v e'
    using only_buffers_changed_sequence [OF pseudo_residual_frame [OF that]] .
  have fitp: "n_estimators e' = n_estimators e \<and> map ident (learners e') = map ident (learners e)"
    if "fit T fwd ex gm e train_loader = Inr (e', out)" for e' out
  proof -
    from fit_sequence [OF that] have "e' = e\<lparr>training := True, learners := learners e'\<rparr>"
      and i: "map ident (learners e') = map ident (learners e)" by simp_all
    then have "n_estimators e' = n_estimators (e\<lparr>training := True, learners := learners e'\<rparr>)" by simp
    with i show ?thesis by simp
  qed
  have evp: "n_estimators e' = n_estimators e \<and> map ident (learners e') = map ident (learners e)"
    if "evaluate fwd e test_loader = Inr (e', out)" for e' out
    using only_buffers_changed_sequence [OF evaluate_sequence [OF that]] by simp
  from plain c k len ids assms(2) fw pr fitp evp show ?thesis by auto
qed

theorem learner_sequence_fixed_witness:
  "init scenario_args toy_factory Map.empty 0 = Inr (scenario_ens, 3) \<and>
   length (learners scenario_ens) = 3 \<and> n_estimators scenario_ens = 3 \<and>
   map ident (learners scenario_ens) = [0, 1, 2] \<and>
   (\<exists>v e'. forward toy_module False scenario_ens [1, 3] = Inr (v, e') \<and>
      n_estimators e' = 3 \<and> map ident (learners e') = [0, 1, 2]) \<and>
   (\<exists>v e'. pseudo_residual toy_module exp True scenario_ens [1, 3] [1, 3] 1 = Inr (v, e') \<and>
      n_estimators e' = 3 \<and> map ident (learners e') = [0, 1, 2]) \<and>
   (\<exists>e' out. fit toy_trainer toy_module exp True scenario_ens [([1, 3], [1, 3])] = Inr (e', out) \<and>
      n_estimators e' = 3 \<and> map ident (learners e') = [0, 1, 2]) \<and>
   (\<exists>e' out. evaluate toy_module scenario_ens
        \<lparr>batches = [([1, 3], [1, 3]), ([0], [2])], dataset_len = 3\<rparr> = Inr (e', out) \<and>
      n_estimators e' = 3 \<and> map ident (learners e') = [0, 1, 2])"
proof -
  have n: "0 \<le> n_estimators scenario_ens" "n_estimators scenario_ens = 3"
    "map ident (learners scenario_ens) = [0, 1, 2]" "length (learners scenario_ens) = 3"
    by (simp_all add: scenario_ens_def)
  note th = learner_sequence_fixed [where e = scenario_ens and fwd = toy_module and ex = exp
      and T = toy_trainer and train_loader = "[([1, 3], [1, 3])]"
      and test_loader = "\<lparr>batches = [([1, 3], [1, 3]), ([0], [2])], dataset_len = 3\<rparr>"
      and X = "[1, 3]" and y = "[1, 3]" and k = 1, OF scenario_init_logged n(1)]
  from th [of True] have i: "init scenario_args toy_factory Map.empty 0 = Inr (scenario_ens, 3)"
    by (rule conjunct1)
  from th [of False] have fw: "\<And>v e'. forward toy_module False scenario_ens [1, 3] = Inr (v, e') \<Longrightarrow>
      n_estimators e' = n_estimators scenario_ens \<and> map ident (learners e') = map ident (learners scenario_ens)"
    by blast
  from th [of True] have pr: "\<And>v e'. pseudo_residual toy_module exp True scenario_ens [1, 3] [1, 3] 1 = Inr (v, e') \<Longrightarrow>
      n_estimators e' = n_estimators scenario_ens \<and> map ident (learners e') = map ident (learners scenario_ens)"
    by blast
  from th [of True] have ft: "\<And>e' out. fit toy_trainer toy_module exp True scenario_ens [([1, 3], [1, 3])] = Inr (e', out) \<Longrightarrow>
      n_estimators e' = n_estimators scenario_ens \<and> map ident (learners e') = map ident (learners scenario_ens)"
    by blast
  from th [of True] have ev: "\<And>e' out. evaluate toy_module scenario_ens
        \<lparr>batches = [([1, 3], [1, 3]), ([0], [2])], dataset_len = 3\<rparr> = Inr (e', out) \<Longrightarrow>
      n_estimators e' = n_estimators scenario_ens \<and> map ident (learners e') = map ident (learners scenario_ens)"
    by blast
  from scenario_forward obtain v1 e1 where
    f1: "forward toy_module False scenario_ens [1, 3] = Inr (v1, e1)" by blast
  from scenario_residual1 obtain v2 e2 where
    f2: "pseudo_residual toy_module exp True scenario_ens [1, 3] [1, 3] 1 = Inr (v2, e2)" by blast
  have a: "\<exists>v e'. forward toy_module False scenario_ens [1, 3] = Inr (v, e') \<and>
      n_estimators e' = 3 \<and> map ident (learners e') = [0, 1, 2]"
    using f1 fw [OF f1] n(2) n(3) by auto
  have b: "\<exists>v e'. pseudo_residual toy_module exp True scenario_ens [1, 3] [1, 3] 1 = Inr (v, e') \<and>
      n_estimators e' = 3 \<and> map ident (learners e') = [0, 1, 2]"
    using f2 pr [OF f2] n(2) n(3) by auto
  have c: "\<exists>e' out. fit toy_trainer toy_module exp True scenario_ens [([1, 3], [1, 3])] = Inr (e', out) \<and>
      n_estimators e' = 3 \<and> map ident (learners e') = [0, 1, 2]"
    using scenario_fit ft [OF scenario_fit] n(2) n(3) by auto
  have d: "\<exists>e' out. evaluate toy_module scenario_ens
        \<lparr>batches = [([1, 3], [1, 3]), ([0], [2])], dataset_len = 3\<rparr> = Inr (e', out) \<and>
      n_estimators e' = 3 \<and> map ident (learners e') = [0, 1, 2]"
    using scenario_evaluate ev [OF scenario_evaluate] n(2) n(3) by auto
  show ?thesis
    using i n(4) n(2) n(3) a b c d by (intro conjI) assumption+
qed

subsection \<open>Pseudo-residuals\<close>

lemma residual_loop_sum:
  fixes s :: "'a::{plus,times}"
  assumes "\<forall>n < length outs. idx + n < length ls \<and>
      fwd (params (ls ! (idx + n))) (buffers (ls ! (idx + n))) m X = Inr (outs ! n) \<and>
      has_shape B D (fst (outs ! n))"
    and "has_shape B D (data acc)"
  shows "\<exists>v ls'. residual_loop fwd m s X acc ls [idx ..< idx + length outs] = Inr (v, ls') \<and>
    has_shape B D (data v) \<and>
    (\<forall>i<B. \<forall>j<D. entry (data v) i j
        = foldl (+) (entry (data acc) i j) (map (\<lambda>r. s * entry (fst r) i j) outs))"
  using assms
proof (induction outs arbitrary: acc ls idx)
  case Nil
  then show ?case by simp
next
  case (Cons r outs)
  from Cons.prems(1) have h0: "idx < length ls"
    "fwd (params (ls ! idx)) (buffers (ls ! idx)) m X = Inr r" "has_shape B D (fst r)"
    by force+
  from call_add_step [where fwd = fwd and l = "ls ! idx" and m = m and X = X and r = r and acc = acc
      and idx = idx and s = s, OF h0(2) h0(3) Cons.prems(2)]
  obtain acc' where c: "call_learner fwd m idx (ls ! idx) X
        = Inr (Var (fst r) (if grad_mode m then {idx} else {}), called (ls ! idx) r)"
      "add_scaled m s acc (Var (fst r) (if grad_mode m then {idx} else {})) = Inr acc'"
      "has_shape B D (data acc')"
    and ce: "\<And>i j. i < B \<Longrightarrow> j < D \<Longrightarrow> entry (data acc') i j = entry (data acc) i j + s * entry (fst r) i j"
    by blast
  let ?ls = "ls[idx := called (ls ! idx) r]"
  have rest: "\<forall>n < length outs. Suc idx + n < length ?ls \<and>
      fwd (params (?ls ! (Suc idx + n))) (buffers (?ls ! (Suc idx + n))) m X = Inr (outs ! n) \<and>
      has_shape B D (fst (outs ! n))"
  proof (intro allI impI)
    fix n assume n: "n < length outs"
    with Cons.prems(1) have "idx + Suc n < length ls \<and>
      fwd (params (ls ! (idx + Suc n))) (buffers (ls ! (idx + Suc n))) m X = Inr ((r # outs) ! Suc n) \<and>
      has_shape B D (fst ((r # outs) ! Suc n))"
      by (metis Suc_less_eq length_Cons)
    then show "Suc idx + n < length ?ls \<and>
      fwd (params (?ls ! (Suc idx + n))) (buffers (?ls ! (Suc idx + n))) m X = Inr (outs ! n) \<and>
      has_shape B D (fst (outs ! n))"
      by simp
  qed
  from Cons.IH [OF rest c(3)]
  obtain v ls' where v: "residual_loop fwd m s X acc' ?ls [Suc idx ..< Suc idx + length outs] = Inr (v, ls')"
      "has_shape B D (data v)"
    and ve: "\<And>i j. i < B \<Longrightarrow> j < D \<Longrightarrow> entry (data v) i j
        = foldl (+) (entry (data acc') i j) (map (\<lambda>r. s * entry (fst r) i j) outs)"
    by blast
  have u: "[idx ..< idx + length (r # outs)] = idx # [Suc idx ..< Suc idx + length outs]"
    using upt_conv_Cons [of idx "idx + length (r # outs)"] by simp
  have step: "residual_loop fwd m s X acc ls [idx ..< idx + length (r # outs)] = Inr (v, ls')"
    unfolding u using h0(1) c(1) c(2) v(1) by simp
  have "entry (data v) i j = foldl (+) (entry (data acc) i j) (map (\<lambda>r. s * entry (fst r) i j) (r # outs))"
    if "i < B" "j < D" for i j
    using ve [OF that] ce [OF that] by simp
  with step v(2) show ?case by blast
qed

lemma row_of_entries:
  "has_shape B D t \<Longrightarrow> i < B \<Longrightarrow> rows t ! i = map (\<lambda>c. entry t i c) [0..<D]"
  by (auto simp: has_shape_def list_all_iff entry_def list_eq_iff_nth_eq)

lemma has_shape_zeros_like:
  "has_shape B D t \<Longrightarrow> has_shape B D (zeros_like t) \<and> (\<forall>i<B. \<forall>j<D. entry (zeros_like t) i j = 0)"
  by (auto simp: has_shape_def zeros_like_def list_all_iff entry_def)

lemma length_softmax_row: "length (softmax_row ex r) = length r"
  by (simp add: softmax_row_def)

text \<open>
  The rows of the residual: the one-hot row of the label minus the softmax of the row of
  partial logits, the partial logits being the sums from zero over the learners below
  \<open>k\<close> (\<open>outs\<close> lists what their calls return).
\<close>

lemma pseudo_residual_rows:
  fixes ens :: "('a::{zero,one,plus,minus,times,inverse}, 'p, 'b, 'g) ensemble"
  assumes "0 \<le> output_dim ens" and "\<forall>l \<in> set y. 0 \<le> l \<and> l < output_dim ens"
    and "length y = length X" and "length outs = nat k"
    and "\<forall>n < nat k. n < length (learners ens) \<and>
      fwd (params (learners ens ! n)) (buffers (learners ens ! n))
        \<lparr>train_mode = training ens, grad_mode = gm\<rparr> X = Inr (outs ! n) \<and>
      has_shape (length X) (nat (output_dim ens)) (fst (outs ! n))"
  shows "\<exists>v ens'. pseudo_residual fwd ex gm ens X y k = Inr (v, ens') \<and>
    ncols (data v) = nat (output_dim ens) \<and> length (rows (data v)) = length X \<and>
    (\<forall>i < length X. rows (data v) ! i =
       map2 (-) ((replicate (nat (output_dim ens)) 0)[nat (y ! i) := 1])
         (softmax_row ex (map (\<lambda>c. foldl (+) 0 (map (\<lambda>r. shrinkage_rate ens * entry (fst r) i c) outs))
            [0..<nat (output_dim ens)])))"
proof -
  let ?D = "nat (output_dim ens)" and ?B = "length X"
  let ?m = "\<lparr>train_mode = training ens, grad_mode = gm\<rparr>"
  let ?oh = "Tensor ?D (map (\<lambda>l. (replicate ?D (0::'a))[nat l := 1]) y)"
  let ?logit = "\<lambda>i c. foldl (+) 0 (map (\<lambda>r. shrinkage_rate ens * entry (fst r) i c) outs)"
  have oh: "onehot_coding ens y = Inr ?oh" by (rule onehot_coding_eq [OF assms(1,2)])
  have ohs: "has_shape ?B ?D ?oh" using assms(3) by (simp add: has_shape_def list_all_iff)
  from has_shape_zeros_like [OF ohs] have zs: "has_shape ?B ?D (zeros_like ?oh)"
    and ze: "\<And>i j. i < ?B \<Longrightarrow> j < ?D \<Longrightarrow> entry (zeros_like ?oh) i j = 0" by blast+
  have "\<exists>v1 ens'. pseudo_residual fwd ex gm ens X y k = Inr (residual_of ex ?m ?oh v1, ens') \<and>
      has_shape ?B ?D (data v1) \<and> (\<forall>i<?B. \<forall>j<?D. entry (data v1) i j = ?logit i j)"
  proof (cases "k = 0")
    case True
    then have "outs = []" using assms(4) by simp
    then have "\<forall>i<?B. \<forall>j<?D. entry (data (Var (zeros_like ?oh) {})) i j = ?logit i j"
      using ze by simp
    moreover have "pseudo_residual fwd ex gm ens X y k
        = Inr (residual_of ex ?m ?oh (Var (zeros_like ?oh) {}), ens)"
      using True oh by (simp add: pseudo_residual_def)
    ultimately show ?thesis using zs by (intro exI [of _ "Var (zeros_like ?oh) {}"] exI [of _ ens]) simp
  next
    case False
    have pre: "\<forall>n < length outs. 0 + n < length (learners ens) \<and>
        fwd (params (learners ens ! (0 + n))) (buffers (learners ens ! (0 + n))) ?m X = Inr (outs ! n) \<and>
        has_shape ?B ?D (fst (outs ! n))"
      using assms(4,5) by simp
    from residual_loop_sum [where fwd = fwd and m = ?m and X = X and B = ?B and D = ?D and idx = 0
        and ls = "learners ens" and outs = outs and acc = "Var (zeros_like ?oh) {}"
        and s = "shrinkage_rate ens", OF pre] zs
    obtain v1 ls' where v1: "residual_loop fwd ?m (shrinkage_rate ens) X (Var (zeros_like ?oh) {})
          (learners ens) [0 ..< 0 + length outs] = Inr (v1, ls')"
        "has_shape ?B ?D (data v1)"
      and e1: "\<And>i j. i < ?B \<Longrightarrow> j < ?D \<Longrightarrow> entry (data v1) i j
          = foldl (+) (entry (data (Var (zeros_like ?oh) {})) i j)
              (map (\<lambda>r. shrinkage_rate ens * entry (fst r) i j) outs)"
      by auto
    have "pseudo_residual fwd ex gm ens X y k = Inr (residual_of ex ?m ?oh v1, ens\<lparr>learners := ls'\<rparr>)"
      using False oh v1(1) assms(4) by (simp add: pseudo_residual_def)
    moreover have "entry (data v1) i j = ?logit i j" if "i < ?B" "j < ?D" for i j
      using e1 [OF that] ze [OF that] by simp
    ultimately show ?thesis using v1(2) by blast
  qed
  then obtain v1 ens' where
    p: "pseudo_residual fwd ex gm ens X y k = Inr (residual_of ex ?m ?oh v1, ens')"
    and s1: "has_shape ?B ?D (data v1)"
    and e1: "\<And>i j. i < ?B \<Longrightarrow> j < ?D \<Longrightarrow> entry (data v1) i j = ?logit i j"
    by blast
  let ?v = "residual_of ex ?m ?oh v1"
  from s1 have len1: "length (rows (data v1)) = ?B" by (simp add: has_shape_def)
  have n: "ncols (data ?v) = ?D" "length (rows (data ?v)) = ?B"
    using assms(3) len1 by (simp_all add: residual_of_def tsub_def softmax_def)
  have "rows (data ?v) ! i =
       map2 (-) ((replicate ?D 0)[nat (y ! i) := 1]) (softmax_row ex (map (\<lambda>c. ?logit i c) [0..<?D]))"
    if "i < ?B" for i
  proof -
    have "rows (data v1) ! i = map (\<lambda>c. entry (data v1) i c) [0..<?D]"
      by (rule row_of_entries [OF s1 that])
    also have "\<dots> = map (\<lambda>c. ?logit i c) [0..<?D]"
      using e1 [OF that] by simp
    finally have r: "rows (data v1) ! i = map (\<lambda>c. ?logit i c) [0..<?D]" .
    show ?thesis
      using that assms(3) len1 r by (simp add: residual_of_def tsub_def softmax_def)
  qed
  with p n show ?thesis by blast
qed

text \<open>
  C1. For labels in \<open>[0, output_dim)\<close>, one label per example, and learners below \<open>k\<close>
  that return tensors of shape \<open>(B, output_dim)\<close> on the batch (\<open>outs\<close> lists what their
  calls return, so \<open>k\<close> is at most the number of learners), \<open>_pseudo_residual\<close> returns
  a tensor of shape \<open>(B, output_dim)\<close> whose entry \<open>(i, j)\<close> is the one-hot entry of label
  \<open>i\<close> minus the \<open>j\<close>-th component of the softmax of row \<open>i\<close> of the partial logits;
  the partial logits are the sums, from zero and in index order, of \<open>shrinkage_rate\<close>
  times the entries of the learners below \<open>k\<close>, hence zero when \<open>k = 0\<close>.
\<close>

theorem pseudo_residual_value:
  fixes ens :: "('a::{zero,one,plus,minus,times,inverse}, 'p, 'b, 'g) ensemble"
  assumes "0 \<le> output_dim ens" and "\<forall>l \<in> set y. 0 \<le> l \<and> l < output_dim ens"
    and "length y = length X" and "length outs = nat k"
    and "\<forall>n < nat k. n < length (learners ens) \<and>
      fwd (params (learners ens ! n)) (buffers (learners ens ! n))
        \<lparr>train_mode = training ens, grad_mode = gm\<rparr> X = Inr (outs ! n) \<and>
      has_shape (length X) (nat (output_dim ens)) (fst (outs ! n))"
  shows "\<exists>v ens'. pseudo_residual fwd ex gm ens X y k = Inr (v, ens') \<and>
    has_shape (length X) (nat (output_dim ens)) (data v) \<and>
    (\<forall>i < length X. \<forall>j < nat (output_dim ens).
       entry (data v) i j = (if int j = y ! i then 1 else 0)
         - softmax_row ex (map (\<lambda>c. foldl (+) 0 (map (\<lambda>r. shrinkage_rate ens * entry (fst r) i c) outs))
              [0..<nat (output_dim ens)]) ! j) \<and>
    (k = 0 \<longrightarrow> (\<forall>i < length X. \<forall>j < nat (output_dim ens).
       entry (data v) i j = (if int j = y ! i then 1 else 0)
         - softmax_row ex (replicate (nat (output_dim ens)) 0) ! j))"
proof -
  let ?D = "nat (output_dim ens)" and ?B = "length X"
  let ?logits = "\<lambda>i. map (\<lambda>c. foldl (+) 0 (map (\<lambda>r. shrinkage_rate ens * entry (fst r) i c) outs)) [0..<?D]"
  from pseudo_residual_rows [where fwd = fwd and ex = ex and gm = gm and ens = ens and X = X
      and y = y and k = k and outs = outs, OF assms] obtain v ens' where
    p: "pseudo_residual fwd ex gm ens X y k = Inr (v, ens')"
    and n: "ncols (data v) = ?D" "length (rows (data v)) = ?B"
    and r: "\<And>i. i < ?B \<Longrightarrow> rows (data v) ! i =
       map2 (-) ((replicate ?D 0)[nat (y ! i) := 1]) (softmax_row ex (?logits i))"
    by blast
  have "length (rows (data v) ! i) = ?D" if "i < ?B" for i
    using r [OF that] by (simp add: length_softmax_row)
  then have sh: "has_shape ?B ?D (data v)"
    using n by (auto simp: has_shape_def list_all_iff in_set_conv_nth)
  have e: "entry (data v) i j = (if int j = y ! i then 1 else 0) - softmax_row ex (?logits i) ! j"
    if "i < ?B" "j < ?D" for i j
  proof -
    from that assms(2,3) have yi: "0 \<le> y ! i" "y ! i < output_dim ens" by auto
    then have "(j = nat (y ! i)) = (int j = y ! i)" by auto
    then show ?thesis
      using that yi r [OF that(1)] by (simp add: entry_def length_softmax_row nth_update_cases)
  qed
  have z: "entry (data v) i j = (if int j = y ! i then 1 else 0) - softmax_row ex (replicate ?D 0) ! j"
    if "k = 0" "i < ?B" "j < ?D" for i j
  proof -
    from that(1) assms(4) have "outs = []" by simp
    then have "?logits i = replicate ?D 0" by (simp add: map_replicate_const)
    with e [OF that(2,3)] show ?thesis by simp
  qed
  from p sh e z show ?thesis by blast
qed

theorem pseudo_residual_value_witness:
  "\<exists>v ens'. pseudo_residual toy_module exp True scenario_ens [1, 3] [1, 3] 1 = Inr (v, ens') \<and>
     has_shape 2 4 (data v) \<and>
     entry (data v) 0 1 = 1 - softmax_row exp [0, 1 / 10, 0, 0] ! 1 \<and>
     entry (data v) 0 0 = 0 - softmax_row exp [0, 1 / 10, 0, 0] ! 0 \<and>
     entry (data v) 1 3 = 1 - softmax_row exp [0, 0, 0, 1 / 10] ! 3"
proof -
  let ?outs = "[(Tensor 4 [[0, 1, 0, 0], [0, 0, 0, 1::real]], 1::nat)]"
  have a: "0 \<le> output_dim scenario_ens" "\<forall>l \<in> set [1, 3]. 0 \<le> l \<and> l < output_dim scenario_ens"
    "length [1, 3 :: int] = length [1, 3 :: nat]" "length ?outs = nat 1"
    by (simp_all add: scenario_ens_def)
  have b: "\<forall>n < nat 1. n < length (learners scenario_ens) \<and>
      toy_module (params (learners scenario_ens ! n)) (buffers (learners scenario_ens ! n))
        \<lparr>train_mode = training scenario_ens, grad_mode = True\<rparr> [1, 3] = Inr (?outs ! n) \<and>
      has_shape (length [1, 3 :: nat]) (nat (output_dim scenario_ens)) (fst (?outs ! n))"
    by (simp add: scenario_ens_def toy_module_def upt4 has_shape_def)
  from pseudo_residual_value [where fwd = toy_module and ex = exp and gm = True and ens = scenario_ens
      and X = "[1, 3]" and y = "[1, 3]" and k = 1 and outs = ?outs, OF a b]
  obtain v ens' where p: "pseudo_residual toy_module exp True scenario_ens [1, 3] [1, 3] 1 = Inr (v, ens')"
    and sh: "has_shape (length [1, 3 :: nat]) (nat (output_dim scenario_ens)) (data v)"
    and e: "\<And>i j. i < length [1, 3 :: nat] \<Longrightarrow> j < nat (output_dim scenario_ens) \<Longrightarrow>
       entry (data v) i j = (if int j = [1, 3] ! i then 1 else 0)
         - softmax_row exp (map (\<lambda>c. foldl (+) 0 (map (\<lambda>r. shrinkage_rate scenario_ens * entry (fst r) i c) ?outs))
              [0..<nat (output_dim scenario_ens)]) ! j"
    by blast
  have d: "output_dim scenario_ens = 4" "shrinkage_rate scenario_ens = 1 / 10"
    by (simp_all add: scenario_ens_def)
  from e [of 0 1] e [of 0 0] e [of 1 3]
  have "entry (data v) 0 1 = 1 - softmax_row exp [0, 1 / 10, 0, 0] ! 1"
    "entry (data v) 0 0 = 0 - softmax_row exp [0, 1 / 10, 0, 0] ! 0"
    "entry (data v) 1 3 = 1 - softmax_row exp [0, 0, 0, 1 / 10] ! 3"
    by (simp_all add: d entry_def upt4)
  moreover have "has_shape 2 4 (data v)" using sh by (simp add: d numeral_2_eq_2)
  ultimately show ?thesis using p by blast
qed









subsection \<open>Evaluation\<close>
















end
